theory Spec2Isabelle
  imports Complex_Main
begin

section \<open>Star Run: the simulation core of StarRunGame.tsx\<close>

text \<open>
  The game keeps its state in mutable references (\<open>spaceshipRef\<close>, \<open>gameStateRef\<close>,
  \<open>obstaclesRef\<close>, \<open>powerUpsRef\<close>, \<open>keysRef\<close>, \<open>frameCountRef\<close>). They are collected
  here in one record \<open>Sim\<close> that every operation takes and returns.

  JavaScript numbers are IEEE 754 doubles. In updateDifficulty, where the outcome of a
  comparison or of \<open>Math.round\<close> depends on the last bit, every arithmetic operation and
  every decimal literal is rounded to the nearest double (see the subsection on
  double-precision arithmetic). Elsewhere numbers are modelled as exact reals, and the
  rounding error of doubles is outside the model there. \<open>Math.round v\<close> is \<open>\<lfloor>v + 1/2\<rfloor>\<close>,
  \<open>Math.floor v\<close> is \<open>\<lfloor>v\<rfloor>\<close>; both are exact on doubles. The values \<open>NaN\<close> and
  \<open>Infinity\<close> are outside the model. \<open>Math.random()\<close> is a parameter of the functions
  that call it. Meshes, the scene and React state setters are presentation and are left
  out.
\<close>

subsection \<open>Data model (types.ts)\<close>

record Spaceship =
  ship_x :: real
  ship_y :: real
  ship_width :: real
  ship_height :: real
  velocity :: real
  boost :: bool
  boostTime :: real
  shield :: bool
  shieldTime :: real
  health :: real
  maxHealth :: real
  energy :: real
  maxEnergy :: real
  isInvisible :: bool
  invisibilityTime :: real
  hasMultishot :: bool
  multishotTime :: real
  hasMagnet :: bool
  magnetTime :: real
  magnetRange :: real
  isTimeFrozen :: bool
  timeFreezeTime :: real
  screenShakeX :: real
  screenShakeY :: real
  screenShakeIntensity :: real

text \<open>
  The fields of an obstacle that the simulation reads or writes. \<open>damage\<close> and
  \<open>ob_health\<close> are optional in types.ts (\<open>damage?: number\<close>). The AI and bounce
  fields are constants that no function of the core reads; they are omitted.
\<close>

record Obstacle =
  ob_x :: real
  ob_y :: real
  ob_width :: real
  ob_height :: real
  ob_type :: string
  ob_speed :: real
  ob_id :: string
  rotation :: real
  rotationSpeed :: real
  ob_health :: "real option"
  damage :: "real option"
  isExplosive :: bool
  explosionRadius :: real
  isInvulnerable :: bool
  invulnerabilityTime :: real
  velocityX :: real
  velocityY :: real
  spawnSide :: string
  maxSpeed :: real

record PowerUp =
  pu_x :: real
  pu_y :: real
  pu_width :: real
  pu_height :: real
  pu_type :: string
  points :: real
  pu_id :: string
  duration :: real
  rarity :: string
  effectStrength :: real
  isPulsing :: bool
  pulseSpeed :: real
  isRotating :: bool
  pu_rotationSpeed :: real
  isTracking :: bool
  trackingRange :: real

record GameState =
  gs_width :: real
  gs_height :: real
  isGameOver :: bool
  score :: real
  highScore :: real
  newHighScore :: bool
  gameSpeed :: real
  difficultyLevel :: real
  obstacleSpawnRate :: real
  powerUpSpawnRate :: real
  obstacleSpeedMultiplier :: real
  obstacleSizeMultiplier :: real
  obstacleCountMultiplier :: real
  powerUpRarity :: real

text \<open>What the core reports to its host: \<open>onGameOver(score, score * 10)\<close>.\<close>

datatype Event = GameOverEvent real real

record Sim =
  ship :: Spaceship
  gameState :: GameState
  obstacles :: "Obstacle list"
  powerUps :: "PowerUp list"
  keysDown :: "string set"
  frameCount :: nat
  storedHighScore :: real
  events :: "Event list"

text \<open>The initial values of \<open>spaceshipRef\<close> and \<open>gameStateRef\<close>; \<open>hs\<close> is the high score
  read from local storage.\<close>

definition initialShip :: Spaceship where
  "initialShip = \<lparr> ship_x = 400, ship_y = 500, ship_width = 40, ship_height = 30,
     velocity = 0, boost = False, boostTime = 0, shield = False, shieldTime = 0,
     health = 100, maxHealth = 100, energy = 100, maxEnergy = 100,
     isInvisible = False, invisibilityTime = 0, hasMultishot = False, multishotTime = 0,
     hasMagnet = False, magnetTime = 0, magnetRange = 50,
     isTimeFrozen = False, timeFreezeTime = 0,
     screenShakeX = 0, screenShakeY = 0, screenShakeIntensity = 0 \<rparr>"

definition initialGameState :: "real \<Rightarrow> GameState" where
  "initialGameState hs = \<lparr> gs_width = 800, gs_height = 600, isGameOver = False,
     score = 0, highScore = hs, newHighScore = False, gameSpeed = 2,
     difficultyLevel = 1, obstacleSpawnRate = 1800, powerUpSpawnRate = 5000,
     obstacleSpeedMultiplier = 1, obstacleSizeMultiplier = 1,
     obstacleCountMultiplier = 1, powerUpRarity = 1 \<rparr>"

definition initialSim :: "real \<Rightarrow> Sim" where
  "initialSim hs = \<lparr> ship = initialShip, gameState = initialGameState hs,
     obstacles = [], powerUps = [], keysDown = {}, frameCount = 0,
     storedHighScore = hs, events = [] \<rparr>"

subsection \<open>Power-up collection (collectPowerUp, activateBoost)\<close>

text \<open>The \<open>switch (powerUp.rarity)\<close> of collectPowerUp; it has no default case, so any
  other rarity keeps the base gain.\<close>

definition rarityScoreGain :: "string \<Rightarrow> real \<Rightarrow> real" where
  "rarityScoreGain r baseScoreGain =
     (if r = ''common'' then baseScoreGain
      else if r = ''rare'' then baseScoreGain * 2
      else if r = ''epic'' then baseScoreGain * 3
      else if r = ''legendary'' then baseScoreGain * 5
      else baseScoreGain)"

text \<open>The \<open>if / else if\<close> chain on \<open>powerUp.type\<close> at the end of collectPowerUp.\<close>

definition applyPowerUpType :: "string \<Rightarrow> Spaceship \<Rightarrow> Spaceship" where
  "applyPowerUpType t s =
     (if t = ''shield'' then s\<lparr>shield := True, shieldTime := 5000\<rparr>
      else if t = ''boost'' then s\<lparr>boostTime := boostTime s + 5000\<rparr>
      else if t = ''invisibility'' then s\<lparr>isInvisible := True, invisibilityTime := 4000\<rparr>
      else if t = ''multishot'' then s\<lparr>hasMultishot := True, multishotTime := 6000\<rparr>
      else if t = ''magnet'' then s\<lparr>hasMagnet := True, magnetTime := 8000, magnetRange := 80\<rparr>
      else if t = ''timefreeze'' then s\<lparr>isTimeFrozen := True, timeFreezeTime := 5000\<rparr>
      else s)"

definition collectPowerUp :: "PowerUp \<Rightarrow> Sim \<Rightarrow> Sim" where
  "collectPowerUp p st =
     (let gs = gameState st;
          levelMultiplier = max 1 (of_int \<lfloor>difficultyLevel gs\<rfloor>);
          baseScoreGain = 10 * levelMultiplier;
          scoreGain0 = rarityScoreGain (rarity p) baseScoreGain;
          scoreGain = (if pu_type p = ''bonus'' then scoreGain0 + baseScoreGain else scoreGain0);
          newScore = score gs + scoreGain;
          newHigh = (if newScore > highScore gs then newScore else highScore gs);
          gs1 = gs\<lparr>score := newScore\<rparr>;
          gs2 = gs1\<lparr>highScore := newHigh\<rparr>;
          gs3 = gs2\<lparr>newHighScore := (newScore > highScore gs2)\<rparr>
      in st\<lparr>gameState := gs3, storedHighScore := newHigh,
            ship := applyPowerUpType (pu_type p) (ship st)\<rparr>)"

definition activateBoost :: "Sim \<Rightarrow> Sim" where
  "activateBoost st = st\<lparr>ship := (ship st)\<lparr>boostTime := boostTime (ship st) + 5000\<rparr>\<rparr>"

text \<open>A power-up of the given type and rarity, as spawnRandomPowerUp lays it out.\<close>

definition mkPowerUp :: "string \<Rightarrow> string \<Rightarrow> real \<Rightarrow> real \<Rightarrow> PowerUp" where
  "mkPowerUp t r px py = \<lparr> pu_x = px, pu_y = py, pu_width = 25, pu_height = 25,
     pu_type = t, points = 5, pu_id = ''powerup'', duration = 10000, rarity = r,
     effectStrength = 1, isPulsing = False, pulseSpeed = 0.05, isRotating = False,
     pu_rotationSpeed = 0.02, isTracking = False, trackingRange = 0 \<rparr>"

subsection \<open>Collision resolution (checkCollisions, gameOver)\<close>

text \<open>The axis-aligned overlap test, written out twice in checkCollisions.\<close>

definition hitsObstacle :: "Spaceship \<Rightarrow> Obstacle \<Rightarrow> bool" where
  "hitsObstacle s ob \<longleftrightarrow>
     ship_x s < ob_x ob + ob_width ob \<and> ship_x s + ship_width s > ob_x ob \<and>
     ship_y s < ob_y ob + ob_height ob \<and> ship_y s + ship_height s > ob_y ob"

definition hitsPowerUp :: "Spaceship \<Rightarrow> PowerUp \<Rightarrow> bool" where
  "hitsPowerUp s p \<longleftrightarrow>
     ship_x s < pu_x p + pu_width p \<and> ship_x s + ship_width s > pu_x p \<and>
     ship_y s < pu_y p + pu_height p \<and> ship_y s + ship_height s > pu_y p"

text \<open>\<open>obstacle.damage || 1\<close>: an absent or zero damage counts as 1.\<close>

definition damageOr1 :: "real option \<Rightarrow> real" where
  "damageOr1 d = (case d of None \<Rightarrow> 1 | Some v \<Rightarrow> if v = 0 then 1 else v)"

text \<open>
  The loop \<open>for (const obstacle of obstaclesRef.current)\<close>. The result is the craft and
  whether \<open>gameOver()\<close> was called, upon which the function returns at once.
\<close>

fun collideObstacles :: "Obstacle list \<Rightarrow> Spaceship \<Rightarrow> Spaceship \<times> bool" where
  "collideObstacles [] s = (s, False)"
| "collideObstacles (ob # obs) s =
     (if isInvisible s then collideObstacles obs s
      else if shield s then collideObstacles obs s
      else if hitsObstacle s ob then
        (let s1 = s\<lparr>screenShakeIntensity := max (screenShakeIntensity s) 5\<rparr> in
         if health s1 > 0 then
           (let s2 = s1\<lparr>health := health s1 - damageOr1 (damage ob)\<rparr> in
            if health s2 \<le> 0 then (s2, True) else collideObstacles obs s2)
         else (s1, True))
      else collideObstacles obs s)"

definition gameOver :: "Sim \<Rightarrow> Sim" where
  "gameOver st =
     (let gs = (gameState st)\<lparr>isGameOver := True\<rparr>
      in st\<lparr>gameState := gs, events := events st @ [GameOverEvent (score gs) (score gs * 10)]\<rparr>)"

text \<open>\<open>splice(i, 1)\<close>.\<close>

definition removeAt :: "nat \<Rightarrow> 'a list \<Rightarrow> 'a list" where
  "removeAt i xs = take i xs @ drop (Suc i) xs"

text \<open>
  The loop \<open>for (let i = powerUps.length - 1; i >= 0; i--)\<close>; the argument is \<open>i + 1\<close>.
\<close>

fun collectLoop :: "nat \<Rightarrow> Sim \<Rightarrow> Sim" where
  "collectLoop 0 st = st"
| "collectLoop (Suc i) st =
     (let p = powerUps st ! i in
      if hitsPowerUp (ship st) p
      then collectLoop i ((collectPowerUp p st)\<lparr>powerUps := removeAt i (powerUps st)\<rparr>)
      else collectLoop i st)"

definition checkCollisions :: "Sim \<Rightarrow> Sim" where
  "checkCollisions st =
     (case collideObstacles (obstacles st) (ship st) of
        (s, over) \<Rightarrow>
          if over then gameOver (st\<lparr>ship := s\<rparr>)
          else collectLoop (length (powerUps st)) (st\<lparr>ship := s\<rparr>))"



text \<open>An obstacle of the given type at the given place, with the health and damage
  spawnRandomObstacle gives that type.\<close>

definition mkObstacle :: "string \<Rightarrow> real \<Rightarrow> real \<Rightarrow> real \<Rightarrow> real \<Rightarrow> Obstacle" where
  "mkObstacle t px py vx vy = \<lparr> ob_x = px, ob_y = py, ob_width = 40, ob_height = 40,
     ob_type = t, ob_speed = 4, ob_id = ''obstacle'', rotation = 0, rotationSpeed = 0,
     ob_health = Some (if t = ''enemy'' then 2 else 1),
     damage = Some (if t = ''meteor'' then 2 else 1),
     isExplosive = (t = ''meteor''), explosionRadius = (if t = ''meteor'' then 50 else 0),
     isInvulnerable = (t = ''blackhole''),
     invulnerabilityTime = (if t = ''blackhole'' then 1000 else 0),
     velocityX = vx, velocityY = vy, spawnSide = ''right'', maxSpeed = 4 \<rparr>"


subsection \<open>Double-precision arithmetic\<close>

text \<open>
  A double is a real of the form \<open>m * 2 ^ e\<close> with an integer \<open>m\<close>, \<open>\<bar>m\<bar> < 2 ^ 53\<close>. The
  result of an arithmetic operation on doubles, and the value of a decimal literal, is
  the exact real rounded to the nearest double, a tie going to the even significand.

  \<open>roundEven\<close> rounds a real to the nearest integer, ties to even.
\<close>

definition roundEven :: "real \<Rightarrow> int" where
  "roundEven y =
     (let f = \<lfloor>y\<rfloor>; r = y - of_int f
      in if r < 1 / 2 then f else if r > 1 / 2 then f + 1 else if even f then f else f + 1)"

text \<open>
  \<open>binade x\<close> is the exponent \<open>e\<close> with \<open>2 ^ e \<le> \<bar>x\<bar> < 2 ^ (e + 1)\<close>. \<open>rnd x\<close> scales \<open>x\<close> by a
  power of two into the range from \<open>2 ^ 52\<close> to \<open>2 ^ 53\<close>, rounds it to an integer and scales
  back. The exponent is not bounded here: this is the rounding of doubles for results
  that are 0 or of a magnitude between \<open>2 ^ -1022\<close> and \<open>2 ^ 1024\<close>; overflow and
  subnormal results are outside the model. With scores below \<open>2 ^ 50\<close> and levels, speeds
  and spawn rates of the size the game stores, updateDifficulty stays within that range.
  Lemma \<open>rnd_at\<close> evaluates \<open>rnd\<close> at an input whose binade is known.
\<close>

definition binade :: "real \<Rightarrow> int" where
  "binade x = \<lfloor>log 2 \<bar>x\<bar>\<rfloor>"

definition rnd :: "real \<Rightarrow> real" where
  "rnd x = (if x = 0 then 0
            else of_int (roundEven (x / 2 powr of_int (binade x - 52))) * 2 powr of_int (binade x - 52))"

text \<open>The operators \<open>+\<close>, \<open>-\<close>, \<open>*\<close> and \<open>/\<close> on doubles.\<close>

definition dadd :: "real \<Rightarrow> real \<Rightarrow> real" where "dadd x y = rnd (x + y)"
definition dsub :: "real \<Rightarrow> real \<Rightarrow> real" where "dsub x y = rnd (x - y)"
definition dmul :: "real \<Rightarrow> real \<Rightarrow> real" where "dmul x y = rnd (x * y)"
definition ddiv :: "real \<Rightarrow> real \<Rightarrow> real" where "ddiv x y = rnd (x / y)"

subsection \<open>Difficulty (updateDifficulty)\<close>

text \<open>\<open>Math.round\<close>: the nearest integer, halves rounded up.\<close>

definition jsRound :: "real \<Rightarrow> real" where
  "jsRound v = of_int \<lfloor>v + 1 / 2\<rfloor>"

text \<open>
  The loop \<open>while (gameState.score >= pointsForNextLevel)\<close>, started with
  \<open>currentLevel = 1\<close> and \<open>pointsForNextLevel = 100\<close>. It terminates because each round
  adds at least 100 to \<open>pointsForNextLevel\<close>.
\<close>

function levelLoop :: "real \<Rightarrow> nat \<Rightarrow> real \<Rightarrow> nat \<times> real" where
  "levelLoop sc currentLevel pointsForNextLevel =
     (if sc \<ge> pointsForNextLevel
      then levelLoop sc (currentLevel + 1) (pointsForNextLevel + 100 * real (currentLevel + 1))
      else (currentLevel, pointsForNextLevel))"
  by pat_completeness auto
termination
proof (relation "measure (\<lambda>(sc, l, p). nat (\<lfloor>sc - p\<rfloor> + 1))")
  show "wf (measure (\<lambda>(sc, l, p). nat (\<lfloor>sc - p\<rfloor> + 1)))" by simp
next
  fix sc :: real and currentLevel :: nat and pointsForNextLevel :: real
  assume a: "pointsForNextLevel \<le> sc"
  have e: "sc - (pointsForNextLevel + 100 * real (currentLevel + 1))
      = (sc - pointsForNextLevel) - of_int (100 * int (currentLevel + 1))"
    by simp
  have f: "\<lfloor>sc - (pointsForNextLevel + 100 * real (currentLevel + 1))\<rfloor>
      = \<lfloor>sc - pointsForNextLevel\<rfloor> - 100 * int (currentLevel + 1)"
    by (simp only: e floor_diff_of_int)
  have "0 \<le> \<lfloor>sc - pointsForNextLevel\<rfloor>"
    using a by simp
  then show "((sc, currentLevel + 1, pointsForNextLevel + 100 * real (currentLevel + 1)),
         (sc, currentLevel, pointsForNextLevel)) \<in> measure (\<lambda>(sc, l, p). nat (\<lfloor>sc - p\<rfloor> + 1))"
    unfolding in_measure prod.case f by simp
qed

declare levelLoop.simps [simp del]

text \<open>
  The constant \<open>roundedDifficulty\<close> of updateDifficulty, as a function of the score, in
  double arithmetic. The numbers in the loop above are integers: for a score below
  \<open>2 ^ 50\<close> they stay below \<open>2 ^ 53\<close>, where every integer is a double and the loop's additions
  and comparisons are exact.
\<close>

definition roundedDifficulty :: "real \<Rightarrow> real" where
  "roundedDifficulty sc =
     (let currentLevel = real (fst (levelLoop sc 1 100));
          pointsForCurrentLevel =
            (if currentLevel = 1 then 0
             else ddiv (dmul (dmul 100 (dsub currentLevel 1)) currentLevel) 2);
          pointsInCurrentLevel = dsub sc pointsForCurrentLevel;
          pointsNeededForNextLevel = dmul 100 currentLevel;
          levelProgress = ddiv pointsInCurrentLevel pointsNeededForNextLevel;
          smoothDifficulty = dadd currentLevel levelProgress
      in ddiv (jsRound (dmul smoothDifficulty 100)) 100)"

text \<open>The constants \<open>newGameSpeed\<close>, \<open>newObstacleSpawnRate\<close> and \<open>newPowerUpSpawnRate\<close>,
  as functions of \<open>level\<close>. The literal \<open>1.2\<close> is the double \<open>rnd 1.2\<close>; the other literals
  are integers.\<close>

definition newGameSpeed :: "real \<Rightarrow> real" where
  "newGameSpeed level = min (dadd 2 (dmul level (rnd 1.2))) 30"

definition newObstacleSpawnRate :: "real \<Rightarrow> real" where
  "newObstacleSpawnRate level = max (dsub 1400 (dmul level 60)) 300"

definition newPowerUpSpawnRate :: "real \<Rightarrow> real" where
  "newPowerUpSpawnRate level = max (dadd 5000 (dmul level 200)) 3000"

text \<open>The body of updateDifficulty on \<open>gameStateRef.current\<close>. The literal \<open>0.1\<close> of the
  two comparisons is the double \<open>rnd 0.1\<close>.\<close>

definition updateDifficulty :: "GameState \<Rightarrow> GameState" where
  "updateDifficulty gs =
     (let difficultyChange = \<bar>dsub (difficultyLevel gs) (roundedDifficulty (score gs))\<bar> in
      if difficultyChange < rnd 0.1 then gs
      else
        (let gs1 = gs\<lparr>difficultyLevel := min (roundedDifficulty (score gs)) 20\<rparr>;
             level = difficultyLevel gs1;
             gs2 = (if \<bar>dsub (gameSpeed gs1) (newGameSpeed level)\<bar> > rnd 0.1
                    then gs1\<lparr>gameSpeed := ddiv (jsRound (dmul (newGameSpeed level) 100)) 100\<rparr>
                    else gs1);
             gs3 = (if \<bar>dsub (obstacleSpawnRate gs2) (newObstacleSpawnRate level)\<bar> > 50
                    then gs2\<lparr>obstacleSpawnRate := newObstacleSpawnRate level\<rparr> else gs2);
             gs4 = (if \<bar>dsub (powerUpSpawnRate gs3) (newPowerUpSpawnRate level)\<bar> > 100
                    then gs3\<lparr>powerUpSpawnRate := newPowerUpSpawnRate level\<rparr> else gs3)
         in gs4))"

text \<open>The spec's cumulative threshold \<open>T(L) = 100 * L * (L - 1) / 2\<close>, to be compared with
  what the loop computes.\<close>

definition specThreshold :: "nat \<Rightarrow> real" where
  "specThreshold L = 100 * real L * (real L - 1) / 2"

subsection \<open>The craft in updateGame: movement, shake, boost, timers\<close>

text \<open>
  The first part of updateGame, up to the obstacle loop, in the order of the source.
  \<open>keys\<close> is \<open>keysRef.current\<close>; \<open>rx\<close> and \<open>ry\<close> are the two values of \<open>Math.random()\<close>
  drawn for the shake offsets.
\<close>

definition moveCraft :: "string set \<Rightarrow> GameState \<Rightarrow> Spaceship \<Rightarrow> Spaceship" where
  "moveCraft keys gs s =
     (let moveSpeed = 8;
          moveX0 = (if ''ArrowLeft'' \<in> keys \<or> ''KeyA'' \<in> keys then - moveSpeed else 0);
          moveX = (if ''ArrowRight'' \<in> keys \<or> ''KeyD'' \<in> keys then moveSpeed else moveX0);
          moveY0 = (if ''ArrowUp'' \<in> keys \<or> ''KeyW'' \<in> keys then - moveSpeed else 0);
          moveY = (if ''ArrowDown'' \<in> keys \<or> ''KeyS'' \<in> keys then moveSpeed else moveY0)
      in s\<lparr>ship_x := max 0 (min (gs_width gs - ship_width s) (ship_x s + moveX + screenShakeX s)),
            ship_y := max 0 (min (gs_height gs - ship_height s) (ship_y s + moveY + screenShakeY s))\<rparr>)"

definition updateScreenShake :: "real \<Rightarrow> real \<Rightarrow> Spaceship \<Rightarrow> Spaceship" where
  "updateScreenShake rx ry s =
     (if screenShakeIntensity s > 0 then
        (let s1 = s\<lparr>screenShakeX := (rx - 0.5) * screenShakeIntensity s,
                      screenShakeY := (ry - 0.5) * screenShakeIntensity s,
                      screenShakeIntensity := screenShakeIntensity s * 0.9\<rparr>
         in if screenShakeIntensity s1 < 0.1
            then s1\<lparr>screenShakeIntensity := 0, screenShakeX := 0, screenShakeY := 0\<rparr>
            else s1)
      else s)"

definition handleBoost :: "real \<Rightarrow> string set \<Rightarrow> Spaceship \<Rightarrow> Spaceship" where
  "handleBoost deltaTime keys s =
     (let moveSpeed = 8 in
      if ''Space'' \<in> keys \<and> boostTime s > 0
      then s\<lparr>velocity := moveSpeed * 2, boost := True, boostTime := max 0 (boostTime s - deltaTime)\<rparr>
      else s\<lparr>velocity := moveSpeed, boost := False\<rparr>)"

definition updateShieldTimer :: "real \<Rightarrow> Spaceship \<Rightarrow> Spaceship" where
  "updateShieldTimer deltaTime s =
     (if shieldTime s > 0
      then s\<lparr>shieldTime := max 0 (shieldTime s - deltaTime),
             shield := (max 0 (shieldTime s - deltaTime) > 0)\<rparr>
      else s)"

definition updateInvisibilityTimer :: "real \<Rightarrow> Spaceship \<Rightarrow> Spaceship" where
  "updateInvisibilityTimer deltaTime s =
     (if invisibilityTime s > 0
      then s\<lparr>invisibilityTime := max 0 (invisibilityTime s - deltaTime),
             isInvisible := (max 0 (invisibilityTime s - deltaTime) > 0)\<rparr>
      else s)"

definition updateMultishotTimer :: "real \<Rightarrow> Spaceship \<Rightarrow> Spaceship" where
  "updateMultishotTimer deltaTime s =
     (if multishotTime s > 0
      then s\<lparr>multishotTime := max 0 (multishotTime s - deltaTime),
             hasMultishot := (max 0 (multishotTime s - deltaTime) > 0)\<rparr>
      else s)"

definition updateMagnetTimer :: "real \<Rightarrow> Spaceship \<Rightarrow> Spaceship" where
  "updateMagnetTimer deltaTime s =
     (if magnetTime s > 0
      then s\<lparr>magnetTime := max 0 (magnetTime s - deltaTime),
             hasMagnet := (max 0 (magnetTime s - deltaTime) > 0)\<rparr>
      else s)"

definition updateTimeFreezeTimer :: "real \<Rightarrow> Spaceship \<Rightarrow> Spaceship" where
  "updateTimeFreezeTimer deltaTime s =
     (if timeFreezeTime s > 0
      then s\<lparr>timeFreezeTime := max 0 (timeFreezeTime s - deltaTime),
             isTimeFrozen := (max 0 (timeFreezeTime s - deltaTime) > 0)\<rparr>
      else s)"

definition updateShip :: "real \<Rightarrow> real \<Rightarrow> real \<Rightarrow> string set \<Rightarrow> GameState \<Rightarrow> Spaceship \<Rightarrow> Spaceship" where
  "updateShip deltaTime rx ry keys gs s =
     updateTimeFreezeTimer deltaTime (updateMagnetTimer deltaTime (updateMultishotTimer deltaTime
       (updateInvisibilityTimer deltaTime (updateShieldTimer deltaTime
         (handleBoost deltaTime keys (updateScreenShake rx ry (moveCraft keys gs s)))))))"

subsection \<open>The obstacle loop of updateGame (with avoidOtherObstacles)\<close>

text \<open>One round of the loop of avoidOtherObstacles, for the obstacle at index \<open>i\<close>.\<close>

definition avoidStep :: "nat \<Rightarrow> Obstacle \<Rightarrow> nat \<times> Obstacle \<Rightarrow> Obstacle" where
  "avoidStep currentIndex obstacle io =
     (case io of (i, other) \<Rightarrow>
        if i = currentIndex then obstacle
        else
          (let dx = ob_x obstacle - ob_x other;
               dy = ob_y obstacle - ob_y other;
               distance = sqrt (dx * dx + dy * dy)
           in if distance < 30 \<and> distance > 0
              then obstacle\<lparr>velocityX := velocityX obstacle + (dx / distance) * 0.1,
                            velocityY := velocityY obstacle + (dy / distance) * 0.1\<rparr>
              else obstacle))"

definition avoidOtherObstacles :: "Obstacle \<Rightarrow> Obstacle list \<Rightarrow> nat \<Rightarrow> Obstacle" where
  "avoidOtherObstacles obstacle allObstacles currentIndex =
     foldl (avoidStep currentIndex) obstacle (enumerate 0 allObstacles)"

text \<open>The position and rotation update at the head of the loop body.\<close>

definition moveObstacle :: "bool \<Rightarrow> Obstacle \<Rightarrow> Obstacle" where
  "moveObstacle frozen obstacle =
     (if frozen
      then obstacle\<lparr>ob_x := ob_x obstacle + velocityX obstacle * 0.3,
                    ob_y := ob_y obstacle + velocityY obstacle * 0.3,
                    rotation := rotation obstacle + rotationSpeed obstacle * 0.3\<rparr>
      else obstacle\<lparr>ob_x := ob_x obstacle + velocityX obstacle * 0.7,
                    ob_y := ob_y obstacle + velocityY obstacle * 0.7,
                    rotation := rotation obstacle + rotationSpeed obstacle\<rparr>)"

definition isOffScreen :: "GameState \<Rightarrow> real \<Rightarrow> real \<Rightarrow> bool" where
  "isOffScreen gs px py \<longleftrightarrow>
     (let margin = 100
      in px < - margin \<or> px > gs_width gs + margin \<or> py < - margin \<or> py > gs_height gs + margin)"

text \<open>
  The loop \<open>for (let i = obstacles.length - 1; i >= 0; i--)\<close>; the argument is \<open>i + 1\<close>.
  The obstacle is moved in place; when it is off screen it is spliced out, otherwise
  avoidOtherObstacles adjusts its velocity against the collection as it then is.
\<close>

fun obstacleLoop :: "bool \<Rightarrow> GameState \<Rightarrow> nat \<Rightarrow> Obstacle list \<Rightarrow> Obstacle list" where
  "obstacleLoop frozen gs 0 obs = obs"
| "obstacleLoop frozen gs (Suc i) obs =
     (let obstacle = moveObstacle frozen (obs ! i);
          obs1 = obs[i := obstacle]
      in if isOffScreen gs (ob_x obstacle) (ob_y obstacle)
         then obstacleLoop frozen gs i (removeAt i obs1)
         else obstacleLoop frozen gs i (obs1[i := avoidOtherObstacles obstacle obs1 i]))"

definition updateObstacles :: "Sim \<Rightarrow> Sim" where
  "updateObstacles st =
     st\<lparr>obstacles := obstacleLoop (isTimeFrozen (ship st)) (gameState st)
                         (length (obstacles st)) (obstacles st)\<rparr>"

text \<open>Where an obstacle is, and where it gets to when it advances by the fraction \<open>c\<close> of
  its velocity.\<close>

definition obstaclePlace :: "Obstacle \<Rightarrow> string \<times> real \<times> real" where
  "obstaclePlace ob = (ob_id ob, ob_x ob, ob_y ob)"

definition advanced :: "real \<Rightarrow> Obstacle \<Rightarrow> string \<times> real \<times> real" where
  "advanced c ob = (ob_id ob, ob_x ob + c * velocityX ob, ob_y ob + c * velocityY ob)"

definition onScreen :: "GameState \<Rightarrow> string \<times> real \<times> real \<Rightarrow> bool" where
  "onScreen gs p = (case p of (i, px, py) \<Rightarrow> \<not> isOffScreen gs px py)"

subsection \<open>Injected viewer actions (spawnPowerUp, spawnObstacle)\<close>

text \<open>
  \<open>data\<close> is typed \<open>any\<close>: every field may be absent. \<open>a || b\<close> yields \<open>b\<close> when \<open>a\<close> is
  falsy, which for a number is absent or 0, for a string absent or empty, and for a
  boolean absent or false.
\<close>

definition orNum :: "real option \<Rightarrow> real \<Rightarrow> real" where
  "orNum v d = (case v of None \<Rightarrow> d | Some n \<Rightarrow> if n = 0 then d else n)"

definition orStr :: "string option \<Rightarrow> string \<Rightarrow> string" where
  "orStr v d = (case v of None \<Rightarrow> d | Some t \<Rightarrow> if t = [] then d else t)"

definition orBool :: "bool option \<Rightarrow> bool \<Rightarrow> bool" where
  "orBool v d = (case v of None \<Rightarrow> d | Some b \<Rightarrow> if b then b else d)"

record PowerUpData =
  pd_x :: "real option"
  pd_y :: "real option"
  pd_type :: "string option"
  pd_points :: "real option"
  pd_duration :: "real option"
  pd_rarity :: "string option"
  pd_effectStrength :: "real option"

record ObstacleData =
  od_spawnSide :: "string option"
  od_speed :: "real option"
  od_width :: "real option"
  od_height :: "real option"
  od_x :: "real option"
  od_y :: "real option"
  od_type :: "string option"
  od_health :: "real option"
  od_damage :: "real option"
  od_isExplosive :: "bool option"
  od_explosionRadius :: "real option"
  od_isInvulnerable :: "bool option"
  od_invulnerabilityTime :: "real option"

text \<open>The values of \<open>Math.random()\<close> that spawnObstacle draws: for the side, the free
  coordinate, the two velocity components and the rotation speed.\<close>

record ObstacleRolls =
  sideRoll :: real
  placeRoll :: real
  vxRoll :: real
  vyRoll :: real
  rotationRoll :: real

text \<open>\<open>yRoll\<close> is the value of \<open>Math.random()\<close> for the default height; \<open>newId\<close> is the
  generated identifier.\<close>

definition spawnPowerUp :: "PowerUpData \<Rightarrow> real \<Rightarrow> string \<Rightarrow> Sim \<Rightarrow> Sim" where
  "spawnPowerUp data yRoll newId st =
     (let powerUp = \<lparr> pu_x = orNum (pd_x data) (gs_width (gameState st)),
            pu_y = orNum (pd_y data) (yRoll * (gs_height (gameState st) - 30)),
            pu_width = 25, pu_height = 25,
            pu_type = orStr (pd_type data) ''bonus'',
            points = orNum (pd_points data) 25,
            pu_id = newId,
            duration = orNum (pd_duration data) 15000,
            rarity = orStr (pd_rarity data) ''common'',
            effectStrength = orNum (pd_effectStrength data) 1,
            isPulsing = False, pulseSpeed = 0, isRotating = False, pu_rotationSpeed = 0,
            isTracking = False, trackingRange = 0 \<rparr>
      in st\<lparr>powerUps := powerUps st @ [powerUp]\<rparr>)"

text \<open>\<open>['left', 'right', 'top', 'bottom'][Math.floor(Math.random() * 4)]\<close>; an index out
  of range yields \<open>undefined\<close>, which the \<open>switch\<close> sends to its default case like the
  empty string here.\<close>

definition randomSide :: "real \<Rightarrow> string" where
  "randomSide r =
     (let sides = [''left'', ''right'', ''top'', ''bottom'']; i = \<lfloor>r * 4\<rfloor>
      in if 0 \<le> i \<and> nat i < length sides then sides ! nat i else [])"

text \<open>The \<open>switch (spawnSide)\<close>: position and velocity.\<close>

definition spawnPlace :: "ObstacleData \<Rightarrow> ObstacleRolls \<Rightarrow> GameState \<Rightarrow> string \<Rightarrow> real \<Rightarrow> real \<Rightarrow> real
    \<Rightarrow> real \<times> real \<times> real \<times> real" where
  "spawnPlace data rolls gs side speed w h =
     (if side = ''left'' then
        (- w, orNum (od_y data) (placeRoll rolls * (gs_height gs - h)),
         speed * (0.8 + vxRoll rolls * 0.4), (vyRoll rolls - 0.5) * speed * 0.3)
      else if side = ''right'' then
        (gs_width gs, orNum (od_y data) (placeRoll rolls * (gs_height gs - h)),
         - speed * (0.8 + vxRoll rolls * 0.4), (vyRoll rolls - 0.5) * speed * 0.3)
      else if side = ''top'' then
        (orNum (od_x data) (placeRoll rolls * (gs_width gs - w)), - h,
         (vxRoll rolls - 0.5) * speed * 0.3, speed * (0.8 + vyRoll rolls * 0.4))
      else if side = ''bottom'' then
        (orNum (od_x data) (placeRoll rolls * (gs_width gs - w)), gs_height gs,
         (vxRoll rolls - 0.5) * speed * 0.3, - speed * (0.8 + vyRoll rolls * 0.4))
      else
        (orNum (od_x data) (gs_width gs), orNum (od_y data) (placeRoll rolls * (gs_height gs - h)),
         - speed, 0))"

definition spawnObstacle :: "ObstacleData \<Rightarrow> ObstacleRolls \<Rightarrow> string \<Rightarrow> Sim \<Rightarrow> Sim" where
  "spawnObstacle data rolls newId st =
     (let gs = gameState st;
          side = orStr (od_spawnSide data) (randomSide (sideRoll rolls));
          speed = orNum (od_speed data) 4;
          w = orNum (od_width data) 40;
          h = orNum (od_height data) 40
      in case spawnPlace data rolls gs side speed w h of
           (spawnX, spawnY, vx, vy) \<Rightarrow>
             st\<lparr>obstacles := obstacles st @
               [\<lparr> ob_x = spawnX, ob_y = spawnY, ob_width = w, ob_height = h,
                   ob_type = orStr (od_type data) ''asteroid'', ob_speed = speed, ob_id = newId,
                   rotation = 0, rotationSpeed = (rotationRoll rolls - 0.5) * 0.1,
                   ob_health = Some (orNum (od_health data) 1),
                   damage = Some (orNum (od_damage data) 1),
                   isExplosive = orBool (od_isExplosive data) False,
                   explosionRadius = orNum (od_explosionRadius data) 0,
                   isInvulnerable = orBool (od_isInvulnerable data) False,
                   invulnerabilityTime = orNum (od_invulnerabilityTime data) 0,
                   velocityX = vx, velocityY = vy, spawnSide = side, maxSpeed = speed \<rparr>]\<rparr>)"

subsection \<open>Runs of the game\<close>

text \<open>
  What can happen to the state between two moments of a game, one constructor for each
  piece of code that writes to the craft, the game state or the two collections:

  \<^item> \<open>Mount w h\<close>: the scene set-up, which stores the size of the container and centres the
    craft;
  \<^item> \<open>Elapse\<close>, \<open>MoveObstacles\<close>, \<open>Collide\<close>: the craft part, the obstacle loop and the
    collision pass of updateGame;
  \<^item> \<open>SpawnRandom ob\<close>: the push of spawnRandomObstacles. Everything about the new obstacle
    is drawn at random or depends on the difficulty, except its damage, which is
    \<open>type === 'meteor' ? 2 : 1\<close>; so the obstacle is any obstacle, with that damage;
  \<^item> \<open>PowerUpsBecome pus\<close>: the power-up loop of updateGame and spawnRandomPowerUp, which
    move, remove and add power-ups: the collection becomes any list;
  \<^item> \<open>Retune\<close>: the four fields updateDifficulty writes, set to any values;
  \<^item> \<open>InjectPowerUp\<close>, \<open>InjectObstacle\<close>, \<open>InjectBoost\<close>: the three viewer actions.

  updateGame returns at once when the game is over, so its pieces do nothing then;
  updateDifficulty runs after the collision pass of the same tick, and the viewer
  actions and the set-up do not look at the flag.
\<close>

datatype Action =
    Mount real real
  | Elapse real real real "string set"
  | MoveObstacles
  | SpawnRandom Obstacle
  | PowerUpsBecome "PowerUp list"
  | Collide
  | Retune real real real real
  | InjectPowerUp PowerUpData real string
  | InjectObstacle ObstacleData ObstacleRolls string
  | InjectBoost

fun step :: "Action \<Rightarrow> Sim \<Rightarrow> Sim" where
  "step (Mount w h) st =
     st\<lparr>gameState := (gameState st)\<lparr>gs_width := w, gs_height := h\<rparr>,
        ship := (ship st)\<lparr>ship_x := w / 2 - 20, ship_y := h - 80\<rparr>\<rparr>"
| "step (Elapse deltaTime rx ry keys) st =
     (if isGameOver (gameState st) then st
      else st\<lparr>ship := updateShip deltaTime rx ry keys (gameState st) (ship st)\<rparr>)"
| "step MoveObstacles st = (if isGameOver (gameState st) then st else updateObstacles st)"
| "step (SpawnRandom ob) st =
     (if isGameOver (gameState st) then st
      else st\<lparr>obstacles := obstacles st @
             [ob\<lparr>damage := Some (if ob_type ob = ''meteor'' then 2 else 1)\<rparr>]\<rparr>)"
| "step (PowerUpsBecome pus) st = (if isGameOver (gameState st) then st else st\<lparr>powerUps := pus\<rparr>)"
| "step Collide st = (if isGameOver (gameState st) then st else checkCollisions st)"
| "step (Retune l g osr pur) st =
     st\<lparr>gameState := (gameState st)\<lparr>difficultyLevel := l, gameSpeed := g,
            obstacleSpawnRate := osr, powerUpSpawnRate := pur\<rparr>\<rparr>"
| "step (InjectPowerUp data yRoll newId) st = spawnPowerUp data yRoll newId st"
| "step (InjectObstacle data rolls newId) st = spawnObstacle data rolls newId st"
| "step InjectBoost st = activateBoost st"






section \<open>Theorems\<close>

subsection \<open>What the collision pass leaves unchanged\<close>

lemma collide_blocked: "shield s \<or> isInvisible s \<Longrightarrow> collideObstacles obs s = (s, False)"
  by (induction obs) auto

lemma applyPowerUpType_frame:
  "health (applyPowerUpType t s) = health s"
  "maxHealth (applyPowerUpType t s) = maxHealth s"
  "ship_x (applyPowerUpType t s) = ship_x s"
  "ship_y (applyPowerUpType t s) = ship_y s"
  "ship_width (applyPowerUpType t s) = ship_width s"
  "ship_height (applyPowerUpType t s) = ship_height s"
  "screenShakeIntensity (applyPowerUpType t s) = screenShakeIntensity s"
  by (simp_all add: applyPowerUpType_def)

lemma hitsPowerUp_applyPowerUpType:
  "hitsPowerUp (applyPowerUpType t s) p = hitsPowerUp s p"
  by (simp add: hitsPowerUp_def applyPowerUpType_frame)

lemma collectPowerUp_frame:
  "obstacles (collectPowerUp p st) = obstacles st"
  "powerUps (collectPowerUp p st) = powerUps st"
  "events (collectPowerUp p st) = events st"
  "health (ship (collectPowerUp p st)) = health (ship st)"
  "maxHealth (ship (collectPowerUp p st)) = maxHealth (ship st)"
  "screenShakeIntensity (ship (collectPowerUp p st)) = screenShakeIntensity (ship st)"
  "isGameOver (gameState (collectPowerUp p st)) = isGameOver (gameState st)"
  "hitsPowerUp (ship (collectPowerUp p st)) q = hitsPowerUp (ship st) q"
  by (simp_all add: collectPowerUp_def Let_def applyPowerUpType_frame hitsPowerUp_applyPowerUpType)

lemma collectLoop_frame:
  "obstacles (collectLoop i st) = obstacles st \<and>
   events (collectLoop i st) = events st \<and>
   health (ship (collectLoop i st)) = health (ship st) \<and>
   maxHealth (ship (collectLoop i st)) = maxHealth (ship st) \<and>
   screenShakeIntensity (ship (collectLoop i st)) = screenShakeIntensity (ship st) \<and>
   isGameOver (gameState (collectLoop i st)) = isGameOver (gameState st)"
  by (induction i arbitrary: st) (simp_all add: Let_def collectPowerUp_frame)





lemma removeAt_nth: "j < i \<Longrightarrow> i < length xs \<Longrightarrow> removeAt i xs ! j = xs ! j"
  by (simp add: removeAt_def nth_append)

lemma removeAt_length: "i < length xs \<Longrightarrow> length (removeAt i xs) = length xs - 1"
  by (simp add: removeAt_def)

lemma collectPowerUp_shieldTime:
  "pu_type p \<noteq> ''shield'' \<Longrightarrow> shieldTime (ship (collectPowerUp p st)) = shieldTime (ship st)"
  by (simp add: collectPowerUp_def Let_def applyPowerUpType_def)

lemma collectLoop_shieldTime:
  "i \<le> length (powerUps st) \<Longrightarrow>
   \<forall>j<i. hitsPowerUp (ship st) (powerUps st ! j) \<longrightarrow> pu_type (powerUps st ! j) \<noteq> ''shield'' \<Longrightarrow>
   shieldTime (ship (collectLoop i st)) = shieldTime (ship st)"
proof (induction i arbitrary: st)
  case 0
  show ?case by simp
next
  case (Suc i)
  let ?p = "powerUps st ! i"
  show ?case
  proof (cases "hitsPowerUp (ship st) ?p")
    case True
    let ?st = "(collectPowerUp ?p st)\<lparr>powerUps := removeAt i (powerUps st)\<rparr>"
    from Suc.prems True have ty: "pu_type ?p \<noteq> ''shield''" by simp
    have "shieldTime (ship (collectLoop i ?st)) = shieldTime (ship ?st)"
    proof (rule Suc.IH)
      show "i \<le> length (powerUps ?st)"
        using Suc.prems(1) by (simp add: removeAt_length)
      show "\<forall>j<i. hitsPowerUp (ship ?st) (powerUps ?st ! j) \<longrightarrow> pu_type (powerUps ?st ! j) \<noteq> ''shield''"
        using Suc.prems by (simp add: removeAt_nth collectPowerUp_frame)
    qed
    with True ty show ?thesis
      by (simp add: Let_def collectPowerUp_shieldTime)
  next
    case False
    with Suc show ?thesis by (simp add: Let_def)
  qed
qed




subsection \<open>Craft health\<close>





















subsection \<open>Collision resolution\<close>

lemma shieldTime_frame:
  "shieldTime (updateTimeFreezeTimer dt s) = shieldTime s"
  "shieldTime (updateMagnetTimer dt s) = shieldTime s"
  "shieldTime (updateMultishotTimer dt s) = shieldTime s"
  "shieldTime (updateInvisibilityTimer dt s) = shieldTime s"
  "shieldTime (handleBoost dt keys s) = shieldTime s"
  "shieldTime (updateScreenShake rx ry s) = shieldTime s"
  "shieldTime (moveCraft keys gs s) = shieldTime s"
  by (simp_all add: updateTimeFreezeTimer_def updateMagnetTimer_def updateMultishotTimer_def
      updateInvisibilityTimer_def handleBoost_def updateScreenShake_def moveCraft_def Let_def)

lemma updateShip_shieldTime:
  "shieldTime (updateShip dt rx ry keys gs s) =
     (if shieldTime s > 0 then max 0 (shieldTime s - dt) else shieldTime s)"
  by (simp add: updateShip_def shieldTime_frame updateShieldTimer_def)

text \<open>
  C3. If the craft's shield or invisibility is active when checkCollisions runs, the
  obstacle loop changes nothing, whatever the number of overlapping obstacles: craft
  health is unchanged and no game-over is raised. The shield timer is not touched by the
  obstacle loop; after the whole pass it is the same unless an overlapping power-up of
  type shield was collected in that pass. The timer update of updateGame is what
  decrements it, by the elapsed time and down to 0.
\<close>

theorem checkCollisions_blocked:
  assumes "shield (ship st) \<or> isInvisible (ship st)"
  shows "collideObstacles (obstacles st) (ship st) = (ship st, False) \<and>
         health (ship (checkCollisions st)) = health (ship st) \<and>
         events (checkCollisions st) = events st \<and>
         isGameOver (gameState (checkCollisions st)) = isGameOver (gameState st) \<and>
         ((\<forall>p \<in> set (powerUps st). hitsPowerUp (ship st) p \<longrightarrow> pu_type p \<noteq> ''shield'') \<longrightarrow>
            shieldTime (ship (checkCollisions st)) = shieldTime (ship st)) \<and>
         shieldTime (updateShip dt rx ry keys (gameState st) (ship st)) =
           (if shieldTime (ship st) > 0 then max 0 (shieldTime (ship st) - dt)
            else shieldTime (ship st))"
proof -
  have c: "collideObstacles (obstacles st) (ship st) = (ship st, False)"
    using assms by (rule collide_blocked)
  then have e: "checkCollisions st = collectLoop (length (powerUps st)) st"
    by (simp add: checkCollisions_def)
  have "shieldTime (ship (collectLoop (length (powerUps st)) st)) = shieldTime (ship st)"
    if "\<forall>p \<in> set (powerUps st). hitsPowerUp (ship st) p \<longrightarrow> pu_type p \<noteq> ''shield''"
    using that by (intro collectLoop_shieldTime) simp_all
  with c show ?thesis
    unfolding e updateShip_shieldTime by (simp add: collectLoop_frame)
qed

theorem checkCollisions_blocked_witness:
  "(shield (ship ((initialSim 0)\<lparr>ship := initialShip\<lparr>shield := True, shieldTime := 5000\<rparr>,
        obstacles := [mkObstacle ''asteroid'' 400 500 0 0],
        powerUps := [mkPowerUp ''bonus'' ''common'' 410 510]\<rparr>)) \<and>
    hitsObstacle initialShip (mkObstacle ''asteroid'' 400 500 0 0) \<and>
    hitsPowerUp initialShip (mkPowerUp ''bonus'' ''common'' 410 510)) \<and>
   health (ship (checkCollisions ((initialSim 0)\<lparr>ship := initialShip\<lparr>shield := True, shieldTime := 5000\<rparr>,
        obstacles := [mkObstacle ''asteroid'' 400 500 0 0],
        powerUps := [mkPowerUp ''bonus'' ''common'' 410 510]\<rparr>))) = 100 \<and>
   shieldTime (ship (checkCollisions ((initialSim 0)\<lparr>ship := initialShip\<lparr>shield := True, shieldTime := 5000\<rparr>,
        obstacles := [mkObstacle ''asteroid'' 400 500 0 0],
        powerUps := [mkPowerUp ''bonus'' ''common'' 410 510]\<rparr>))) = 5000"
  using checkCollisions_blocked [of "(initialSim 0)\<lparr>ship := initialShip\<lparr>shield := True, shieldTime := 5000\<rparr>,
        obstacles := [mkObstacle ''asteroid'' 400 500 0 0],
        powerUps := [mkPowerUp ''bonus'' ''common'' 410 510]\<rparr>"]
  by (simp add: initialShip_def hitsObstacle_def hitsPowerUp_def mkObstacle_def mkPowerUp_def)








subsection \<open>Power-up collection\<close>

text \<open>
  C5 (as amended). Only boost is additive: collecting a boost power-up, or an injected
  boost action, adds 5000 ms to the remaining boostTime. Shield, invisibility, multishot,
  magnet and time-freeze are set to their full durations (5000, 4000, 6000, 8000 and
  5000 ms), whatever time remained.
\<close>

theorem collectPowerUp_durations:
  "boostTime (ship (collectPowerUp (p\<lparr>pu_type := ''boost''\<rparr>) st)) = boostTime (ship st) + 5000 \<and>
   boostTime (ship (activateBoost st)) = boostTime (ship st) + 5000 \<and>
   shieldTime (ship (collectPowerUp (p\<lparr>pu_type := ''shield''\<rparr>) st)) = 5000 \<and>
   shield (ship (collectPowerUp (p\<lparr>pu_type := ''shield''\<rparr>) st)) \<and>
   invisibilityTime (ship (collectPowerUp (p\<lparr>pu_type := ''invisibility''\<rparr>) st)) = 4000 \<and>
   isInvisible (ship (collectPowerUp (p\<lparr>pu_type := ''invisibility''\<rparr>) st)) \<and>
   multishotTime (ship (collectPowerUp (p\<lparr>pu_type := ''multishot''\<rparr>) st)) = 6000 \<and>
   hasMultishot (ship (collectPowerUp (p\<lparr>pu_type := ''multishot''\<rparr>) st)) \<and>
   magnetTime (ship (collectPowerUp (p\<lparr>pu_type := ''magnet''\<rparr>) st)) = 8000 \<and>
   hasMagnet (ship (collectPowerUp (p\<lparr>pu_type := ''magnet''\<rparr>) st)) \<and>
   timeFreezeTime (ship (collectPowerUp (p\<lparr>pu_type := ''timefreeze''\<rparr>) st)) = 5000 \<and>
   isTimeFrozen (ship (collectPowerUp (p\<lparr>pu_type := ''timefreeze''\<rparr>) st))"
  by (simp add: collectPowerUp_def Let_def applyPowerUpType_def activateBoost_def)

text \<open>
  Shield does not extend: with 3000 ms of shield left, collecting a shield power-up
  leaves 5000 ms, not 8000 ms.
\<close>

theorem shield_extend_counterexample:
  "shieldTime (ship (collectPowerUp (mkPowerUp ''shield'' ''common'' 400 500)
      ((initialSim 0)\<lparr>ship := initialShip\<lparr>shield := True, shieldTime := 3000\<rparr>\<rparr>))) = 5000 \<and>
   shieldTime (ship (collectPowerUp (mkPowerUp ''shield'' ''common'' 400 500)
      ((initialSim 0)\<lparr>ship := initialShip\<lparr>shield := True, shieldTime := 3000\<rparr>\<rparr>))) \<noteq>
   shieldTime (ship ((initialSim 0)\<lparr>ship := initialShip\<lparr>shield := True, shieldTime := 3000\<rparr>\<rparr>)) + 5000"
  by (simp add: collectPowerUp_def Let_def applyPowerUpType_def mkPowerUp_def)

text \<open>
  C9. In collectPowerUp the flag \<open>newHighScore\<close> is computed after \<open>highScore\<close> has already
  been raised to at least the new score, so the comparison \<open>newScore > highScore\<close> is
  never true: after every call the flag is false, whatever the power-up and the state.
\<close>

theorem collectPowerUp_newHighScore_false:
  "newHighScore (gameState (collectPowerUp p st)) = False"
  by (simp add: collectPowerUp_def Let_def)

subsection \<open>Rounding to the nearest double\<close>

lemma binade_bounds:
  assumes "x \<noteq> 0"
  shows "2 powr of_int (binade x) \<le> \<bar>x\<bar>" and "\<bar>x\<bar> < 2 powr of_int (binade x + 1)"
proof -
  have p: "0 < \<bar>x\<bar>" using assms by simp
  have "of_int (binade x) \<le> log 2 \<bar>x\<bar>"
    unfolding binade_def by (rule of_int_floor_le)
  then show "2 powr of_int (binade x) \<le> \<bar>x\<bar>"
    using p by (simp add: powr_le_iff)
  have "log 2 \<bar>x\<bar> < of_int (binade x + 1)"
    unfolding binade_def by simp
  then show "\<bar>x\<bar> < 2 powr of_int (binade x + 1)"
    using p by (simp add: less_powr_iff)
qed

lemma binade_eq:
  assumes "2 powr of_int e \<le> \<bar>x\<bar>" and "\<bar>x\<bar> < 2 powr of_int (e + 1)"
  shows "binade x = e"
proof -
  have "0 < (2::real) powr of_int e" by simp
  with assms(1) have p: "0 < \<bar>x\<bar>" by linarith
  have "of_int e \<le> log 2 \<bar>x\<bar>"
    using assms(1) p by (simp add: powr_le_iff)
  moreover have "log 2 \<bar>x\<bar> < of_int e + 1"
    using assms(2) p by (simp add: less_powr_iff)
  ultimately show ?thesis
    unfolding binade_def by (simp add: floor_unique)
qed

lemma roundEven_near: "\<bar>of_int (roundEven y) - y\<bar> \<le> 1 / 2"
  unfolding roundEven_def Let_def by simp

lemma roundEven_int: "roundEven (of_int n) = n"
  by (simp add: roundEven_def)

lemma roundEven_mono: "a \<le> b \<Longrightarrow> roundEven a \<le> roundEven b"
proof -
  assume ab: "a \<le> b"
  have lo: "\<lfloor>y\<rfloor> \<le> roundEven y" and hi: "roundEven y \<le> \<lfloor>y\<rfloor> + 1" for y
    by (simp_all add: roundEven_def Let_def)
  show ?thesis
  proof (cases "\<lfloor>a\<rfloor> = \<lfloor>b\<rfloor>")
    case True
    with ab show ?thesis
      by (simp add: roundEven_def Let_def)
  next
    case False
    with ab have "\<lfloor>a\<rfloor> + 1 \<le> \<lfloor>b\<rfloor>"
      using floor_mono [of a b] by linarith
    with hi [of a] lo [of b] show ?thesis by linarith
  qed
qed

lemma roundEven_minus: "roundEven (- y) = - roundEven y"
proof (cases "y \<in> \<int>")
  case True
  then obtain n where "y = of_int n" by (auto elim: Ints_cases)
  then show ?thesis
    by (simp add: roundEven_int flip: of_int_minus)
next
  case False
  then have "y \<noteq> of_int \<lfloor>y\<rfloor>"
    by (metis Ints_of_int)
  then have "\<lceil>y\<rceil> = \<lfloor>y\<rfloor> + 1"
    by (simp add: ceiling_altdef)
  then have f: "\<lfloor>- y\<rfloor> = - \<lfloor>y\<rfloor> - 1"
    by (simp add: ceiling_def)
  have "y - of_int \<lfloor>y\<rfloor> \<noteq> 0"
    using False by (metis Ints_of_int eq_iff_diff_eq_0)
  then show ?thesis
    unfolding roundEven_def Let_def f by (simp add: algebra_simps)
qed

lemma binade_minus: "binade (- x) = binade x"
  by (simp add: binade_def)

lemma rnd_minus: "rnd (- x) = - rnd x"
  by (simp add: rnd_def binade_minus roundEven_minus)

lemma rnd_0: "rnd 0 = 0"
  by (simp add: rnd_def)

lemma rnd_at:
  "2 powr of_int e \<le> \<bar>x\<bar> \<Longrightarrow> \<bar>x\<bar> < 2 powr of_int (e + 1) \<Longrightarrow>
   rnd x = of_int (roundEven (x / 2 powr of_int (e - 52))) * 2 powr of_int (e - 52)"
proof -
  assume a: "2 powr of_int e \<le> \<bar>x\<bar>" "\<bar>x\<bar> < 2 powr of_int (e + 1)"
  then have "binade x = e" by (rule binade_eq)
  moreover have "0 < (2::real) powr of_int e" by simp
  with a(1) have "0 < \<bar>x\<bar>" by linarith
  then have "x \<noteq> 0" by simp
  ultimately show ?thesis by (simp add: rnd_def)
qed

lemma rnd_error_ulp: "\<bar>rnd x - x\<bar> \<le> 2 powr of_int (binade x - 53)"
proof (cases "x = 0")
  case True
  then show ?thesis by (simp add: rnd_def)
next
  case False
  define s :: real where "s = 2 powr of_int (binade x - 52)"
  have s: "0 < s" by (simp add: s_def)
  have "rnd x - x = (of_int (roundEven (x / s)) - x / s) * s"
    using False s by (simp add: rnd_def s_def algebra_simps)
  then have "\<bar>rnd x - x\<bar> = \<bar>of_int (roundEven (x / s)) - x / s\<bar> * s"
    using s by (simp add: abs_mult)
  also have "\<dots> \<le> (1 / 2) * s"
    using roundEven_near [of "x / s"] s by (intro mult_right_mono) simp_all
  also have "\<dots> = 2 powr of_int (binade x - 53)"
  proof -
    have "(2::real) powr of_int (binade x - 52) = 2 powr (of_int (binade x - 53) + 1)"
      by simp
    also have "\<dots> = 2 powr of_int (binade x - 53) * 2"
      by (simp only: powr_add) simp
    finally show ?thesis by (simp add: s_def)
  qed
  finally show ?thesis .
qed

lemma rnd_error: "\<bar>rnd x - x\<bar> \<le> \<bar>x\<bar> / 2 ^ 53"
proof (cases "x = 0")
  case True
  then show ?thesis by (simp add: rnd_def)
next
  case False
  have "(2::real) powr of_int (binade x - 53) = 2 powr (of_int (binade x) + (- 53))"
    by simp
  also have "\<dots> = 2 powr of_int (binade x) * 2 powr (- 53)"
    by (simp only: powr_add)
  also have "\<dots> = 2 powr of_int (binade x) / 2 ^ 53"
    by (simp add: powr_neg_numeral)
  also have "\<dots> \<le> \<bar>x\<bar> / 2 ^ 53"
    using binade_bounds(1) [OF False] by (simp add: divide_right_mono)
  finally show ?thesis
    using rnd_error_ulp [of x] by linarith
qed

lemma rnd_error_bound: "\<bar>x\<bar> \<le> B \<Longrightarrow> \<bar>rnd x - x\<bar> \<le> B / 2 ^ 53"
proof -
  assume "\<bar>x\<bar> \<le> B"
  then have "\<bar>x\<bar> / 2 ^ 53 \<le> B / 2 ^ 53"
    by (simp add: divide_right_mono)
  with rnd_error [of x] show ?thesis by linarith
qed

lemma powr_int_nonneg: "0 \<le> j \<Longrightarrow> (2::real) powr of_int j = of_int (2 ^ nat j)"
proof -
  assume "0 \<le> j"
  then have e: "(of_int j :: real) = real (nat j)" by simp
  show ?thesis
    unfolding e by (simp add: powr_realpow)
qed

lemma rnd_exact:
  assumes "\<bar>m\<bar> < 2 ^ 53"
  shows "rnd (of_int m * 2 powr of_int k) = of_int m * 2 powr of_int k"
proof (cases "m = 0")
  case True
  then show ?thesis by (simp add: rnd_def)
next
  case False
  define x :: real where "x = of_int m * 2 powr of_int k"
  define b where "b = binade x"
  have x0: "x \<noteq> 0" using False by (simp add: x_def)
  have ax: "\<bar>x\<bar> = of_int \<bar>m\<bar> * 2 powr of_int k"
    by (simp add: x_def abs_mult)
  have "of_int \<bar>m\<bar> < (2::real) ^ 53"
    using assms by simp
  then have "\<bar>x\<bar> < 2 ^ 53 * 2 powr of_int k"
    unfolding ax by (intro mult_strict_right_mono) simp_all
  also have "\<dots> = 2 powr (53 + of_int k)"
    by (simp add: powr_add)
  finally have "2 powr of_int b < (2::real) powr (53 + of_int k)"
    using binade_bounds(1) [OF x0] unfolding b_def by linarith
  then have "(of_int b :: real) < 53 + of_int k"
    by simp
  then have j: "0 \<le> k - (b - 52)" by linarith
  have "x / 2 powr of_int (b - 52) = of_int m * (2 powr of_int k / 2 powr of_int (b - 52))"
    by (simp add: x_def)
  also have "2 powr of_int k / 2 powr of_int (b - 52) = (2::real) powr of_int (k - (b - 52))"
    by (simp add: powr_diff)
  also have "\<dots> = of_int (2 ^ nat (k - (b - 52)))"
    using j by (rule powr_int_nonneg)
  finally have y: "x / 2 powr of_int (b - 52) = of_int (m * 2 ^ nat (k - (b - 52)))"
    by simp
  have "rnd x = of_int (roundEven (x / 2 powr of_int (b - 52))) * 2 powr of_int (b - 52)"
    using x0 by (simp add: rnd_def b_def)
  also have "\<dots> = (x / 2 powr of_int (b - 52)) * 2 powr of_int (b - 52)"
    unfolding y roundEven_int ..
  also have "\<dots> = x" by simp
  finally show ?thesis by (simp add: x_def)
qed

lemma rnd_int: "\<bar>n\<bar> < 2 ^ 53 \<Longrightarrow> rnd (of_int n) = of_int n"
  using rnd_exact [of n 0] by simp

lemma rnd_dyadic: "\<bar>m\<bar> < 2 ^ 53 \<Longrightarrow> rnd (of_int m / 2 ^ j) = of_int m / 2 ^ j"
proof -
  assume m: "\<bar>m\<bar> < 2 ^ 53"
  have "(2::real) powr of_int (- int j) = 1 / 2 ^ j"
    by (simp add: powr_minus powr_realpow divide_inverse)
  with rnd_exact [OF m, of "- int j"] show ?thesis by simp
qed

lemma rnd_pos_bracket:
  assumes "0 < x"
  shows "2 powr of_int (binade x) \<le> rnd x" and "rnd x \<le> 2 powr of_int (binade x + 1)"
proof -
  define b where "b = binade x"
  define s :: real where "s = 2 powr of_int (b - 52)"
  have s: "0 < s" by (simp add: s_def)
  have x0: "x \<noteq> 0" using assms by simp
  have lo: "2 powr of_int b = 2 ^ 52 * s"
  proof -
    have "(of_int b :: real) = 52 + of_int (b - 52)" by simp
    then have "(2::real) powr of_int b = 2 powr (52 + of_int (b - 52))" by (simp only:)
    also have "\<dots> = 2 powr 52 * 2 powr of_int (b - 52)" by (simp only: powr_add)
    also have "\<dots> = 2 ^ 52 * s" by (simp add: s_def)
    finally show ?thesis .
  qed
  have hi: "2 powr of_int (b + 1) = 2 ^ 53 * s"
  proof -
    have "(of_int (b + 1) :: real) = 53 + of_int (b - 52)" by simp
    then have "(2::real) powr of_int (b + 1) = 2 powr (53 + of_int (b - 52))" by (simp only:)
    also have "\<dots> = 2 powr 53 * 2 powr of_int (b - 52)" by (simp only: powr_add)
    also have "\<dots> = 2 ^ 53 * s" by (simp add: s_def)
    finally show ?thesis .
  qed
  from binade_bounds [OF x0] assms have "2 ^ 52 * s \<le> x" "x < 2 ^ 53 * s"
    unfolding b_def [symmetric] lo hi by simp_all
  then have y: "of_int (2 ^ 52) \<le> x / s" "x / s \<le> of_int (2 ^ 53)"
    using s by (simp_all add: pos_le_divide_eq pos_divide_le_eq)
  have r: "rnd x = of_int (roundEven (x / s)) * s"
    using x0 by (simp add: rnd_def b_def s_def)
  from roundEven_mono [OF y(1)] have "(2::int) ^ 52 \<le> roundEven (x / s)"
    by (simp only: roundEven_int)
  then have "(2::real) ^ 52 \<le> of_int (roundEven (x / s))"
    by simp
  then have "2 ^ 52 * s \<le> of_int (roundEven (x / s)) * s"
    using s by (intro mult_right_mono) simp_all
  then show "2 powr of_int (binade x) \<le> rnd x"
    unfolding r b_def [symmetric] lo .
  from roundEven_mono [OF y(2)] have "roundEven (x / s) \<le> (2::int) ^ 53"
    by (simp only: roundEven_int)
  then have "of_int (roundEven (x / s)) \<le> (2::real) ^ 53"
    by simp
  then have "of_int (roundEven (x / s)) * s \<le> 2 ^ 53 * s"
    using s by (intro mult_right_mono) simp_all
  then show "rnd x \<le> 2 powr of_int (binade x + 1)"
    unfolding r b_def [symmetric] hi .
qed

lemma rnd_pos: "0 < x \<Longrightarrow> 0 < rnd x"
proof -
  assume "0 < x"
  from rnd_pos_bracket(1) [OF this] have "2 powr of_int (binade x) \<le> rnd x" .
  moreover have "0 < (2::real) powr of_int (binade x)" by simp
  ultimately show ?thesis by linarith
qed

lemma rnd_mono_pos:
  assumes "0 < x" and "x \<le> y"
  shows "rnd x \<le> rnd y"
proof -
  have y: "0 < y" using assms by simp
  have "log 2 \<bar>x\<bar> \<le> log 2 \<bar>y\<bar>"
    using assms by simp
  then have b: "binade x \<le> binade y"
    unfolding binade_def by (rule floor_mono)
  show ?thesis
  proof (cases "binade x = binade y")
    case True
    define s :: real where "s = 2 powr of_int (binade y - 52)"
    have s: "0 < s" by (simp add: s_def)
    have "x / s \<le> y / s"
      using assms(2) s by (simp add: divide_right_mono)
    then have "roundEven (x / s) \<le> roundEven (y / s)"
      by (rule roundEven_mono)
    then have "of_int (roundEven (x / s)) * s \<le> of_int (roundEven (y / s)) * s"
      using s by (intro mult_right_mono) simp_all
    then show ?thesis
      using assms(1) y True by (simp add: rnd_def s_def)
  next
    case False
    with b have "binade x + 1 \<le> binade y" by simp
    then have "(2::real) powr of_int (binade x + 1) \<le> 2 powr of_int (binade y)"
      by simp
    with rnd_pos_bracket(2) [OF assms(1)] rnd_pos_bracket(1) [OF y] show ?thesis
      by linarith
  qed
qed

lemma rnd_mono: "x \<le> y \<Longrightarrow> rnd x \<le> rnd y"
proof -
  assume xy: "x \<le> y"
  consider "0 < x" | "x \<le> 0" "0 \<le> y" | "y < 0" by linarith
  then show ?thesis
  proof cases
    case 1
    then show ?thesis using xy by (rule rnd_mono_pos)
  next
    case 2
    have "rnd x \<le> 0"
    proof (cases "x = 0")
      case True
      then show ?thesis by (simp add: rnd_0)
    next
      case False
      with 2 have "0 < - x" by simp
      from rnd_pos [OF this] show ?thesis by (simp add: rnd_minus)
    qed
    moreover have "0 \<le> rnd y"
    proof (cases "y = 0")
      case True
      then show ?thesis by (simp add: rnd_0)
    next
      case False
      with 2 have "0 < y" by simp
      from rnd_pos [OF this] show ?thesis by simp
    qed
    ultimately show ?thesis by simp
  next
    case 3
    then have "0 < - y" "- y \<le> - x" using xy by simp_all
    from rnd_mono_pos [OF this] show ?thesis by (simp add: rnd_minus)
  qed
qed

lemma rnd_Ints: "x \<in> \<int> \<Longrightarrow> \<bar>x\<bar> < 2 ^ 53 \<Longrightarrow> rnd x = x"
proof -
  assume "x \<in> \<int>" and b: "\<bar>x\<bar> < 2 ^ 53"
  then obtain n where n: "x = of_int n" by (auto elim: Ints_cases)
  with b have "of_int \<bar>n\<bar> < (2::real) ^ 53" by simp
  then have "\<bar>n\<bar> < 2 ^ 53"
    by simp
  then show ?thesis unfolding n by (rule rnd_int)
qed

lemma rnd_nat: "m < 2 ^ 53 \<Longrightarrow> rnd (real m) = real m"
proof -
  assume "m < 2 ^ 53"
  then have "\<bar>int m\<bar> < 2 ^ 53" by simp
  from rnd_int [OF this] show ?thesis by simp
qed

lemma rnd_01: "rnd 0.1 = 7205759403792794 / 2 ^ 56"
  by (subst rnd_at [of "- 4"]) (simp_all add: roundEven_def Let_def powr_neg_numeral)

lemma rnd_12: "rnd 1.2 = 5404319552844595 / 2 ^ 52"
  by (subst rnd_at [of 0]) (simp_all add: roundEven_def Let_def powr_neg_numeral)

subsection \<open>Difficulty\<close>

lemma specThreshold_Suc: "specThreshold (Suc l) + 100 * real (Suc l) = specThreshold (Suc (Suc l))"
  by (simp add: specThreshold_def algebra_simps)

lemma levelLoop_bracket:
  "p = specThreshold (Suc l) \<Longrightarrow> specThreshold l \<le> sc \<Longrightarrow>
   (case levelLoop sc l p of (L, P) \<Rightarrow>
      l \<le> L \<and> P = specThreshold (Suc L) \<and> specThreshold L \<le> sc \<and> sc < specThreshold (Suc L))"
proof (induction sc l p rule: levelLoop.induct)
  case (1 sc l p)
  show ?case
  proof (cases "sc \<ge> p")
    case True
    have "case levelLoop sc (l + 1) (p + 100 * real (l + 1)) of (L, P) \<Rightarrow>
      l + 1 \<le> L \<and> P = specThreshold (Suc L) \<and> specThreshold L \<le> sc \<and> sc < specThreshold (Suc L)"
      using True "1.prems" specThreshold_Suc [of l] by (intro "1.IH") simp_all
    then show ?thesis
      using True by (subst levelLoop.simps) (auto split: prod.splits)
  next
    case False
    with "1.prems" show ?thesis
      by (subst levelLoop.simps) simp
  qed
qed

lemma specThreshold_mono: "a \<le> b \<Longrightarrow> specThreshold a \<le> specThreshold b"
proof -
  assume ab: "a \<le> b"
  have "real a * (real a - 1) \<le> real b * (real b - 1)"
  proof (cases a)
    case 0
    have "0 \<le> real b * (real b - 1)"
      by (cases b) simp_all
    with 0 show ?thesis by simp
  next
    case (Suc n)
    with ab show ?thesis
      by (intro mult_mono) simp_all
  qed
  then show ?thesis by (simp add: specThreshold_def)
qed

lemma level_largest:
  assumes "0 \<le> sc"
  shows "1 \<le> fst (levelLoop sc 1 100) \<and> specThreshold (fst (levelLoop sc 1 100)) \<le> sc \<and>
         (\<forall>L'. specThreshold L' \<le> sc \<longrightarrow> L' \<le> fst (levelLoop sc 1 100))"
proof -
  obtain L P where lp: "levelLoop sc 1 100 = (L, P)" by (cases "levelLoop sc 1 100")
  have "case levelLoop sc 1 100 of (L, P) \<Rightarrow>
      1 \<le> L \<and> P = specThreshold (Suc L) \<and> specThreshold L \<le> sc \<and> sc < specThreshold (Suc L)"
    using assms by (intro levelLoop_bracket) (simp_all add: specThreshold_def)
  with lp have b: "1 \<le> L" "specThreshold L \<le> sc" "sc < specThreshold (Suc L)" by simp_all
  have "L' \<le> L" if "specThreshold L' \<le> sc" for L'
  proof (rule ccontr)
    assume "\<not> L' \<le> L"
    then have "Suc L \<le> L'" by simp
    from specThreshold_mono [OF this] that b(3) show False by simp
  qed
  with b lp show ?thesis by simp
qed

lemma level_ints:
  assumes "1 \<le> L" and "specThreshold L \<le> real n" and "n < 2 ^ 50"
  shows "(if real L = 1 then 0 else ddiv (dmul (dmul 100 (dsub (real L) 1)) (real L)) 2)
           = specThreshold L"
    and "dsub (real n) (specThreshold L) = real n - specThreshold L"
    and "dmul 100 (real L) = 100 * real L"
    and "real L \<le> 2 ^ 25"
proof -
  define t where "t = (L - 1) * L"
  have L1: "real L - 1 = real (L - 1)"
    using assms(1) by simp
  have st: "specThreshold L = real (50 * t)"
    by (simp add: specThreshold_def t_def L1)
  have "real (50 * t) \<le> real n"
    using assms(2) unfolding st .
  then have tn: "50 * t \<le> n"
    by (simp only: of_nat_le_iff)
  have a: "L - 1 \<le> t"
    using assms(1) by (simp add: t_def)
  have b: "L \<le> t + 1"
    using a assms(1) by simp
  have n53: "n < 2 ^ 53" "2 * n + 100 < 2 ^ 53"
    using assms(3) by simp_all
  have r1: "dsub (real L) 1 = real (L - 1)"
    unfolding dsub_def L1 using a tn n53 by (intro rnd_nat) simp
  have r2: "dmul 100 (real (L - 1)) = real (100 * (L - 1))"
  proof -
    have "rnd (real (100 * (L - 1))) = real (100 * (L - 1))"
      using a tn n53 by (intro rnd_nat) simp
    then show ?thesis by (simp add: dmul_def)
  qed
  have r3: "dmul (real (100 * (L - 1))) (real L) = real (100 * t)"
  proof -
    have "rnd (real (100 * t)) = real (100 * t)"
      using tn n53 by (intro rnd_nat) simp
    then show ?thesis by (simp add: dmul_def t_def mult.assoc)
  qed
  have r4: "ddiv (real (100 * t)) 2 = real (50 * t)"
  proof -
    have "rnd (real (50 * t)) = real (50 * t)"
      using tn n53 by (intro rnd_nat) simp
    then show ?thesis by (simp add: ddiv_def)
  qed
  show "(if real L = 1 then 0 else ddiv (dmul (dmul 100 (dsub (real L) 1)) (real L)) 2)
           = specThreshold L"
  proof (cases "L = 1")
    case True
    then show ?thesis by (simp add: specThreshold_def)
  next
    case False
    then have "real L \<noteq> 1" by simp
    then show ?thesis
      by (simp only: if_False r1 r2 r3 r4 st)
  qed
  show "dsub (real n) (specThreshold L) = real n - specThreshold L"
  proof -
    have "real n - real (50 * t) = real (n - 50 * t)"
      using tn by (simp only: of_nat_diff)
    moreover have "rnd (real (n - 50 * t)) = real (n - 50 * t)"
      using n53 by (intro rnd_nat) simp
    ultimately show ?thesis
      by (simp only: dsub_def st)
  qed
  show "dmul 100 (real L) = 100 * real L"
  proof -
    have "rnd (real (100 * L)) = real (100 * L)"
      using b tn n53 by (intro rnd_nat) simp
    then show ?thesis by (simp add: dmul_def)
  qed
  have "L \<le> 2 ^ 25"
  proof (rule ccontr)
    assume "\<not> L \<le> 2 ^ 25"
    then have "2 ^ 25 \<le> L - 1" "2 ^ 25 \<le> L" by simp_all
    then have "2 ^ 25 * 2 ^ 25 \<le> (L - 1) * L"
      by (rule mult_le_mono)
    then have "2 ^ 50 \<le> t" by (simp add: t_def)
    with tn assms(3) show False by simp
  qed
  then have "real L \<le> real (2 ^ 25)"
    by (simp only: of_nat_le_iff)
  then show "real L \<le> 2 ^ 25"
    by simp
qed

lemma level_bracket:
  assumes "0 \<le> sc"
  shows "1 \<le> fst (levelLoop sc 1 100)"
    and "specThreshold (fst (levelLoop sc 1 100)) \<le> sc"
    and "sc < specThreshold (Suc (fst (levelLoop sc 1 100)))"
proof -
  obtain L P where lp: "levelLoop sc 1 100 = (L, P)" by (cases "levelLoop sc 1 100")
  have "case levelLoop sc 1 100 of (L, P) \<Rightarrow>
      1 \<le> L \<and> P = specThreshold (Suc L) \<and> specThreshold L \<le> sc \<and> sc < specThreshold (Suc L)"
    using assms by (intro levelLoop_bracket) (simp_all add: specThreshold_def)
  with lp show "1 \<le> fst (levelLoop sc 1 100)"
    and "specThreshold (fst (levelLoop sc 1 100)) \<le> sc"
    and "sc < specThreshold (Suc (fst (levelLoop sc 1 100)))"
    by simp_all
qed

lemma roundedDifficulty_analysis:
  assumes "n < 2 ^ 50"
  shows "\<exists>k. roundedDifficulty (real n) = rnd (of_int k / 100) \<and> 100 \<le> k \<and>
     \<bar>of_int k - 100 * (real (fst (levelLoop (real n) 1 100))
          + (real n - specThreshold (fst (levelLoop (real n) 1 100)))
              / (100 * real (fst (levelLoop (real n) 1 100))))\<bar>
       \<le> 1 / 2 + 300 * (real (fst (levelLoop (real n) 1 100)) + 2) / 2 ^ 53"
proof -
  define L where "L = fst (levelLoop (real n) 1 100)"
  define T where "T = specThreshold L"
  have n0: "0 \<le> real n" by simp
  note br = level_bracket [OF n0, folded L_def]
  note li = level_ints [OF br(1,2) assms]
  define a0 where "a0 = (real n - T) / (100 * real L)"
  define a where "a = rnd a0"
  define b where "b = rnd (real L + a)"
  define c where "c = rnd (b * 100)"
  define k where "k = \<lfloor>c + 1 / 2\<rfloor>"
  have Lpos: "1 \<le> real L" using br(1) by simp
  have step: "specThreshold (Suc L) = T + 100 * real L"
    by (simp add: specThreshold_def T_def field_simps)
  have a0: "0 \<le> a0" "a0 < 1"
    using br(2,3) Lpos unfolding a0_def T_def [symmetric] step by simp_all
  have r: "roundedDifficulty (real n) = rnd (of_int k / 100)"
    unfolding roundedDifficulty_def Let_def L_def [symmetric] li(1) li(2) li(3)
    by (simp add: ddiv_def dadd_def dmul_def jsRound_def k_def c_def b_def a_def a0_def T_def)
  have ea: "\<bar>a - a0\<bar> \<le> 1 / 2 ^ 53"
    unfolding a_def using a0 by (intro rnd_error_bound) simp
  have a_nonneg: "0 \<le> a"
    unfolding a_def using rnd_mono [OF a0(1)] by (simp add: rnd_0)
  have LB: "real L + 3 \<le> 2 ^ 53"
    using li(4) by simp
  have u: "(1::real) / 2 ^ 53 \<le> 1 / 2" by simp
  have a1: "a \<le> 3 / 2"
    using ea a0 u by linarith
  have sL: "\<bar>real L + a\<bar> \<le> real L + 3 / 2"
    using a1 a_nonneg Lpos by linarith
  have eb0: "\<bar>b - (real L + a)\<bar> \<le> (real L + 3 / 2) / 2 ^ 53"
    unfolding b_def using sL by (rule rnd_error_bound)
  have "(real L + 3 / 2) / 2 ^ 53 \<le> (real L + 2) / 2 ^ 53"
    by (intro divide_right_mono) simp_all
  with eb0 have eb: "\<bar>b - (real L + a)\<bar> \<le> (real L + 2) / 2 ^ 53"
    by linarith
  have "(real L + 3 / 2) / 2 ^ 53 \<le> 2 ^ 53 / 2 ^ 53"
    using LB by (intro divide_right_mono) simp_all
  then have "(real L + 3 / 2) / 2 ^ 53 \<le> 1 / 2 + 1 / 2"
    by simp
  then have bb: "\<bar>b\<bar> \<le> real L + 5 / 2"
    using eb0 sL by linarith
  have "\<bar>b * 100\<bar> \<le> 100 * (real L + 5 / 2)"
    using bb by (simp add: abs_mult)
  from rnd_error_bound [OF this]
  have ec: "\<bar>c - b * 100\<bar> \<le> (100 * (real L + 5 / 2)) / 2 ^ 53"
    by (simp add: c_def)
  have ek: "\<bar>of_int k - c\<bar> \<le> 1 / 2"
    unfolding k_def by linarith
  have one: "rnd 1 = 1" using rnd_int [of 1] by simp
  have hundred: "rnd 100 = 100" using rnd_int [of 100] by simp
  have "1 \<le> real L + a" using Lpos a_nonneg by simp
  from rnd_mono [OF this] have b1: "1 \<le> b" by (simp add: b_def one)
  then have "100 \<le> b * 100" by simp
  from rnd_mono [OF this] have c100: "100 \<le> c" by (simp add: c_def hundred)
  then have k100: "100 \<le> k"
    unfolding k_def by (simp add: le_floor_iff)
  define v :: real where "v = 1 / 2 ^ 53"
  define w :: real where "w = real L * v"
  have v: "0 \<le> v" by (simp add: v_def)
  have w: "0 \<le> w" using v by (simp add: w_def)
  have ea': "\<bar>a - a0\<bar> \<le> v" using ea by (simp add: v_def)
  have eb': "\<bar>b - (real L + a)\<bar> \<le> w + 2 * v"
    using eb by (simp add: w_def v_def field_simps)
  have ec': "\<bar>c - b * 100\<bar> \<le> 100 * w + 250 * v"
    using ec by (simp add: w_def v_def field_simps)
  have "\<bar>of_int k - 100 * (real L + a0)\<bar> \<le> 1 / 2 + (300 * w + 600 * v)"
    using ea' eb' ec' ek w v by argo
  also have "300 * w + 600 * v = 300 * (real L + 2) / 2 ^ 53"
    by (simp add: w_def v_def field_simps)
  finally have "\<bar>of_int k - 100 * (real L + a0)\<bar> \<le> 1 / 2 + 300 * (real L + 2) / 2 ^ 53" .
  with r k100 show ?thesis
    unfolding L_def [symmetric] a0_def T_def by blast
qed

lemma rnd_abs: "\<bar>rnd x\<bar> = rnd \<bar>x\<bar>"
proof (cases "0 \<le> x")
  case True
  from rnd_mono [OF this] have "0 \<le> rnd x" by (simp add: rnd_0)
  with True show ?thesis by simp
next
  case False
  then have "x \<le> 0" by simp
  from rnd_mono [OF this] have "rnd x \<le> 0" by (simp add: rnd_0)
  with False show ?thesis by (simp add: rnd_minus)
qed

lemma guard_exceeded:
  assumes "1000001 / 10000000 \<le> \<bar>x - y\<bar>"
  shows "rnd 0.1 < \<bar>dsub x y\<bar>"
proof -
  define d where "d = \<bar>x - y\<bar>"
  have e: "\<bar>rnd d - d\<bar> \<le> d / 2 ^ 53"
    using rnd_error [of d] by (simp add: d_def)
  have "d / 2 ^ 53 \<le> d / 2 ^ 30"
    unfolding d_def by (intro divide_left_mono) simp_all
  with e have "d - d / 2 ^ 30 \<le> rnd d"
    by linarith
  moreover have "(1000001 / 10000000) * (1 - 1 / 2 ^ 30) \<le> d * (1 - 1 / 2 ^ 30)"
    using assms unfolding d_def by (intro mult_right_mono) simp_all
  moreover have "(7205759403792794 / 2 ^ 56 :: real) < (1000001 / 10000000) * (1 - 1 / 2 ^ 30)"
    by simp
  ultimately have "7205759403792794 / 2 ^ 56 < rnd d"
    by (simp add: algebra_simps)
  then show ?thesis
    unfolding rnd_01 by (simp add: dsub_def rnd_abs d_def)
qed

lemma guard_applied:
  "1000001 / 10000000 \<le> \<bar>x - y\<bar> \<Longrightarrow> \<not> \<bar>dsub x y\<bar> < rnd 0.1"
  using guard_exceeded [of x y] by simp

lemma guard_skipped:
  assumes "\<bar>x - y\<bar> \<le> 999999 / 10000000"
  shows "\<bar>dsub x y\<bar> < rnd 0.1"
proof -
  define d where "d = \<bar>x - y\<bar>"
  have d0: "0 \<le> d" by (simp add: d_def)
  have e: "\<bar>rnd d - d\<bar> \<le> d / 2 ^ 53"
    using rnd_error [of d] by (simp add: d_def)
  have "d / 2 ^ 53 \<le> d / 2 ^ 30"
    unfolding d_def by (intro divide_left_mono) simp_all
  with e have "rnd d \<le> d + d / 2 ^ 30"
    by linarith
  moreover have "d * (1 + 1 / 2 ^ 30) \<le> (999999 / 10000000) * (1 + 1 / 2 ^ 30)"
    using assms unfolding d_def by (intro mult_right_mono) simp_all
  moreover have "(999999 / 10000000) * (1 + 1 / 2 ^ 30) < (7205759403792794 / 2 ^ 56 :: real)"
    by simp
  ultimately have "rnd d < 7205759403792794 / 2 ^ 56"
    by (simp add: algebra_simps)
  then show ?thesis
    by (simp add: dsub_def rnd_abs rnd_01 d_def)
qed

lemma roundedDifficulty_value:
  assumes "n < 2 ^ 50" and "fst (levelLoop (real n) 1 100) = L"
    and "\<bar>of_int m - 100 * (real L + (real n - specThreshold L) / (100 * real L))\<bar> < 49 / 100"
  shows "roundedDifficulty (real n) = rnd (of_int m / 100)"
proof -
  from roundedDifficulty_analysis [OF assms(1)] obtain k where
    k: "roundedDifficulty (real n) = rnd (of_int k / 100)"
      "\<bar>of_int k - 100 * (real L + (real n - specThreshold L) / (100 * real L))\<bar>
         \<le> 1 / 2 + 300 * (real L + 2) / 2 ^ 53"
    unfolding assms(2) by (elim exE conjE)
  have n0: "0 \<le> real n" by simp
  note br = level_bracket [OF n0, unfolded assms(2)]
  note li = level_ints [OF br(1,2) assms(1)]
  have "300 * (real L + 2) / 2 ^ 53 \<le> 300 * (2 ^ 25 + 2) / 2 ^ 53"
    using li(4) by (intro divide_right_mono mult_left_mono) simp_all
  also have "\<dots> < 1 / 100" by simp
  finally have "300 * (real L + 2) / 2 ^ 53 < 1 / 100" .
  with k(2) assms(3) have "\<bar>real_of_int k - real_of_int m\<bar> < 1"
    by argo
  then have "\<bar>k - m\<bar> < 1"
    by (metis of_int_abs of_int_diff of_int_less_1_iff)
  then have "k = m" by simp
  with k(1) show ?thesis by simp
qed

lemma roundedDifficulty_ge_1:
  assumes "n < 2 ^ 50"
  shows "1 \<le> roundedDifficulty (real n)"
proof -
  from roundedDifficulty_analysis [OF assms] obtain k where
    k: "roundedDifficulty (real n) = rnd (of_int k / 100)" "100 \<le> k"
    by (elim exE conjE)
  have "(100::real) \<le> of_int k" using k(2) by simp
  then have "(1::real) \<le> of_int k / 100" by simp
  from rnd_mono [OF this] have "1 \<le> rnd (of_int k / 100)"
    using rnd_int [of 1] by simp
  with k(1) show ?thesis by simp
qed

lemma updateDifficulty_fields:
  assumes "\<not> \<bar>dsub (difficultyLevel gs) (roundedDifficulty (score gs))\<bar> < rnd 0.1"
  shows "difficultyLevel (updateDifficulty gs) = min (roundedDifficulty (score gs)) 20"
    and "gameSpeed (updateDifficulty gs) =
      (if \<bar>dsub (gameSpeed gs) (newGameSpeed (min (roundedDifficulty (score gs)) 20))\<bar> > rnd 0.1
       then ddiv (jsRound (dmul (newGameSpeed (min (roundedDifficulty (score gs)) 20)) 100)) 100
       else gameSpeed gs)"
    and "obstacleSpawnRate (updateDifficulty gs) =
      (if \<bar>dsub (obstacleSpawnRate gs) (newObstacleSpawnRate (min (roundedDifficulty (score gs)) 20))\<bar> > 50
       then newObstacleSpawnRate (min (roundedDifficulty (score gs)) 20) else obstacleSpawnRate gs)"
    and "powerUpSpawnRate (updateDifficulty gs) =
      (if \<bar>dsub (powerUpSpawnRate gs) (newPowerUpSpawnRate (min (roundedDifficulty (score gs)) 20))\<bar> > 100
       then newPowerUpSpawnRate (min (roundedDifficulty (score gs)) 20) else powerUpSpawnRate gs)"
    and "score (updateDifficulty gs) = score gs"
proof -
  define gs1 where "gs1 = gs\<lparr>difficultyLevel := min (roundedDifficulty (score gs)) 20\<rparr>"
  define r where "r = difficultyLevel gs1"
  define gs2 where "gs2 = (if \<bar>dsub (gameSpeed gs1) (newGameSpeed r)\<bar> > rnd 0.1
                    then gs1\<lparr>gameSpeed := ddiv (jsRound (dmul (newGameSpeed r) 100)) 100\<rparr>
                    else gs1)"
  define gs3 where "gs3 = (if \<bar>dsub (obstacleSpawnRate gs2) (newObstacleSpawnRate r)\<bar> > 50
                    then gs2\<lparr>obstacleSpawnRate := newObstacleSpawnRate r\<rparr> else gs2)"
  define gs4 where "gs4 = (if \<bar>dsub (powerUpSpawnRate gs3) (newPowerUpSpawnRate r)\<bar> > 100
                    then gs3\<lparr>powerUpSpawnRate := newPowerUpSpawnRate r\<rparr> else gs3)"
  have u: "updateDifficulty gs = gs4"
    unfolding updateDifficulty_def Let_def gs4_def gs3_def gs2_def r_def gs1_def
    using assms by (simp only: if_False)
  have r: "min (roundedDifficulty (score gs)) 20 = r"
    by (simp add: r_def gs1_def)
  have l2: "difficultyLevel gs2 = r" "score gs2 = score gs"
    "obstacleSpawnRate gs2 = obstacleSpawnRate gs" "powerUpSpawnRate gs2 = powerUpSpawnRate gs"
    by (simp_all add: gs2_def r_def) (simp_all add: gs1_def)
  have l3: "difficultyLevel gs3 = r" "score gs3 = score gs" "gameSpeed gs3 = gameSpeed gs2"
    "powerUpSpawnRate gs3 = powerUpSpawnRate gs"
    by (simp_all add: gs3_def l2)
  have l4: "difficultyLevel gs4 = r" "score gs4 = score gs" "gameSpeed gs4 = gameSpeed gs2"
    "obstacleSpawnRate gs4 = obstacleSpawnRate gs3"
    by (simp_all add: gs4_def l3)
  show "difficultyLevel (updateDifficulty gs) = min (roundedDifficulty (score gs)) 20"
    unfolding u r by (rule l4)
  show "score (updateDifficulty gs) = score gs"
    unfolding u by (rule l4)
  show "gameSpeed (updateDifficulty gs) =
      (if \<bar>dsub (gameSpeed gs) (newGameSpeed (min (roundedDifficulty (score gs)) 20))\<bar> > rnd 0.1
       then ddiv (jsRound (dmul (newGameSpeed (min (roundedDifficulty (score gs)) 20)) 100)) 100
       else gameSpeed gs)"
    unfolding u r l4 by (simp add: gs2_def) (simp add: gs1_def)
  show "obstacleSpawnRate (updateDifficulty gs) =
      (if \<bar>dsub (obstacleSpawnRate gs) (newObstacleSpawnRate (min (roundedDifficulty (score gs)) 20))\<bar> > 50
       then newObstacleSpawnRate (min (roundedDifficulty (score gs)) 20) else obstacleSpawnRate gs)"
    unfolding u r l4 by (simp add: gs3_def l2)
  show "powerUpSpawnRate (updateDifficulty gs) =
      (if \<bar>dsub (powerUpSpawnRate gs) (newPowerUpSpawnRate (min (roundedDifficulty (score gs)) 20))\<bar> > 100
       then newPowerUpSpawnRate (min (roundedDifficulty (score gs)) 20) else powerUpSpawnRate gs)"
    unfolding u r by (simp add: gs4_def l3)
qed

lemma updateDifficulty_skipped:
  "\<bar>dsub (difficultyLevel gs) (roundedDifficulty (score gs))\<bar> < rnd 0.1 \<Longrightarrow> updateDifficulty gs = gs"
  unfolding updateDifficulty_def Let_def by (simp only: if_True)

lemma rnd_12_near: "\<bar>rnd 1.2 - 1.2\<bar> \<le> 1 / 2 ^ 52" "0 \<le> rnd 1.2" "rnd 1.2 \<le> 5 / 4"
  unfolding rnd_12 by simp_all

lemma newGameSpeed_near:
  assumes "0 \<le> l" and "l \<le> 20"
  shows "\<bar>newGameSpeed l - min (2 + 1.2 * l) 30\<bar> \<le> 1 / 2 ^ 46"
proof -
  define c where "c = rnd 1.2"
  define p where "p = rnd (l * c)"
  define q where "q = rnd (2 + p)"
  have c: "\<bar>c - 1.2\<bar> \<le> 1 / 2 ^ 52" "0 \<le> c" "c \<le> 5 / 4"
    using rnd_12_near by (simp_all add: c_def)
  have "l * c \<le> 20 * (5 / 4)"
    using assms c by (intro mult_mono) simp_all
  moreover have "0 \<le> l * c" using assms c by simp
  ultimately have lc: "\<bar>l * c\<bar> \<le> 25" by simp
  from rnd_error_bound [OF this] have ep: "\<bar>p - l * c\<bar> \<le> 25 / 2 ^ 53"
    by (simp add: p_def)
  have "l * c - l * 1.2 = l * (c - 1.2)"
    by (simp only: right_diff_distrib)
  then have "\<bar>l * c - l * 1.2\<bar> = \<bar>l\<bar> * \<bar>c - 1.2\<bar>"
    by (simp only: abs_mult)
  also have "\<dots> = l * \<bar>c - 1.2\<bar>"
    using assms by simp
  also have "\<dots> \<le> 20 * (1 / 2 ^ 52)"
    using assms c by (intro mult_mono) simp_all
  finally have el: "\<bar>l * c - l * 1.2\<bar> \<le> 40 / 2 ^ 53" by simp
  have "\<bar>2 + p\<bar> \<le> 28"
    using ep lc by (simp add: abs_le_iff) argo
  from rnd_error_bound [OF this] have eq: "\<bar>q - (2 + p)\<bar> \<le> 28 / 2 ^ 53"
    by (simp add: q_def)
  have "\<bar>q - (2 + 1.2 * l)\<bar> \<le> 93 / 2 ^ 53"
    using ep el eq by argo
  also have "\<dots> \<le> (1::real) / 2 ^ 46" by simp
  finally have "\<bar>q - (2 + 1.2 * l)\<bar> \<le> 1 / 2 ^ 46" .
  then have "\<bar>min q 30 - min (2 + 1.2 * l) 30\<bar> \<le> 1 / 2 ^ 46"
    by (simp add: min_def abs_le_iff) argo
  then show ?thesis
    by (simp add: newGameSpeed_def dadd_def dmul_def q_def p_def c_def)
qed

lemma newObstacleSpawnRate_near:
  assumes "0 \<le> l" and "l \<le> 20"
  shows "\<bar>newObstacleSpawnRate l - max (1400 - 60 * l) 300\<bar> \<le> 1 / 2 ^ 41"
proof -
  define p where "p = rnd (l * 60)"
  define q where "q = rnd (1400 - p)"
  have "\<bar>l * 60\<bar> \<le> 1200" using assms by simp
  from rnd_error_bound [OF this] have ep: "\<bar>p - l * 60\<bar> \<le> 1200 / 2 ^ 53"
    by (simp add: p_def)
  have "\<bar>1400 - p\<bar> \<le> 1401"
    using ep assms by (simp add: abs_le_iff) argo
  from rnd_error_bound [OF this] have eq: "\<bar>q - (1400 - p)\<bar> \<le> 1401 / 2 ^ 53"
    by (simp add: q_def)
  have "\<bar>q - (1400 - 60 * l)\<bar> \<le> 2601 / 2 ^ 53"
    using ep eq by argo
  also have "\<dots> \<le> (1::real) / 2 ^ 41" by simp
  finally have "\<bar>q - (1400 - 60 * l)\<bar> \<le> 1 / 2 ^ 41" .
  then have "\<bar>max q 300 - max (1400 - 60 * l) 300\<bar> \<le> 1 / 2 ^ 41"
    by (simp add: max_def abs_le_iff) argo
  then show ?thesis
    by (simp add: newObstacleSpawnRate_def dsub_def dmul_def q_def p_def)
qed

lemma newPowerUpSpawnRate_near:
  assumes "0 \<le> l" and "l \<le> 20"
  shows "\<bar>newPowerUpSpawnRate l - max (5000 + 200 * l) 3000\<bar> \<le> 1 / 2 ^ 39"
proof -
  define p where "p = rnd (l * 200)"
  define q where "q = rnd (5000 + p)"
  have "\<bar>l * 200\<bar> \<le> 4000" using assms by simp
  from rnd_error_bound [OF this] have ep: "\<bar>p - l * 200\<bar> \<le> 4000 / 2 ^ 53"
    by (simp add: p_def)
  have "\<bar>5000 + p\<bar> \<le> 9001"
    using ep assms by (simp add: abs_le_iff) argo
  from rnd_error_bound [OF this] have eq: "\<bar>q - (5000 + p)\<bar> \<le> 9001 / 2 ^ 53"
    by (simp add: q_def)
  have "\<bar>q - (5000 + 200 * l)\<bar> \<le> 13001 / 2 ^ 53"
    using ep eq by argo
  also have "\<dots> \<le> (1::real) / 2 ^ 39" by simp
  finally have "\<bar>q - (5000 + 200 * l)\<bar> \<le> 1 / 2 ^ 39" .
  then have "\<bar>max q 3000 - max (5000 + 200 * l) 3000\<bar> \<le> 1 / 2 ^ 39"
    by (simp add: max_def abs_le_iff) argo
  then show ?thesis
    by (simp add: newPowerUpSpawnRate_def dadd_def dmul_def q_def p_def)
qed

lemma tunables_mono:
  assumes "0 \<le> a" and "a \<le> b"
  shows "newGameSpeed a \<le> newGameSpeed b" and "newObstacleSpawnRate b \<le> newObstacleSpawnRate a"
    and "newPowerUpSpawnRate a \<le> newPowerUpSpawnRate b"
proof -
  have c: "0 \<le> rnd 1.2" by (rule rnd_12_near)
  have "a * rnd 1.2 \<le> b * rnd 1.2"
    using assms c by (intro mult_right_mono)
  then have "rnd (a * rnd 1.2) \<le> rnd (b * rnd 1.2)" by (rule rnd_mono)
  then have "2 + rnd (a * rnd 1.2) \<le> 2 + rnd (b * rnd 1.2)" by simp
  then have "rnd (2 + rnd (a * rnd 1.2)) \<le> rnd (2 + rnd (b * rnd 1.2))" by (rule rnd_mono)
  then show "newGameSpeed a \<le> newGameSpeed b"
    by (simp add: newGameSpeed_def dadd_def dmul_def min_def)
  have "a * 60 \<le> b * 60" using assms by simp
  then have "rnd (a * 60) \<le> rnd (b * 60)" by (rule rnd_mono)
  then have "1400 - rnd (b * 60) \<le> 1400 - rnd (a * 60)" by simp
  then have "rnd (1400 - rnd (b * 60)) \<le> rnd (1400 - rnd (a * 60))" by (rule rnd_mono)
  then show "newObstacleSpawnRate b \<le> newObstacleSpawnRate a"
    by (simp add: newObstacleSpawnRate_def dsub_def dmul_def max_def)
  have "a * 200 \<le> b * 200" using assms by simp
  then have "rnd (a * 200) \<le> rnd (b * 200)" by (rule rnd_mono)
  then have "5000 + rnd (a * 200) \<le> 5000 + rnd (b * 200)" by simp
  then have "rnd (5000 + rnd (a * 200)) \<le> rnd (5000 + rnd (b * 200))" by (rule rnd_mono)
  then show "newPowerUpSpawnRate a \<le> newPowerUpSpawnRate b"
    by (simp add: newPowerUpSpawnRate_def dadd_def dmul_def max_def)
qed

lemma round2_near:
  assumes "\<bar>g\<bar> \<le> 40"
  shows "\<bar>ddiv (jsRound (dmul g 100)) 100 - g\<bar> \<le> 6 / 1000"
proof -
  define c where "c = rnd (g * 100)"
  define k :: real where "k = of_int \<lfloor>c + 1 / 2\<rfloor>"
  define G where "G = rnd (k / 100)"
  have "\<bar>g * 100\<bar> \<le> 4000" using assms by (simp add: abs_mult)
  from rnd_error_bound [OF this] have ec: "\<bar>c - g * 100\<bar> \<le> 4000 / 2 ^ 53"
    by (simp add: c_def)
  have ek: "\<bar>k - c\<bar> \<le> 1 / 2"
    unfolding k_def by linarith
  have t: "(4000::real) / 2 ^ 53 \<le> 1 / 2" by simp
  have "\<bar>k / 100\<bar> \<le> 41"
    using ec ek assms t by (simp add: abs_le_iff) argo
  from rnd_error_bound [OF this] have eG: "\<bar>G - k / 100\<bar> \<le> 41 / 2 ^ 53"
    by (simp add: G_def)
  have t2: "(41::real) / 2 ^ 53 \<le> 1 / 2000" by simp
  have "\<bar>G - g\<bar> \<le> 6 / 1000"
    using ec ek eG t t2 by argo
  then show ?thesis
    by (simp add: ddiv_def dmul_def jsRound_def G_def k_def c_def)
qed

lemma guard_le:
  assumes "\<bar>x - y\<bar> \<le> B" and "B \<in> \<int>" and "\<bar>B\<bar> < 2 ^ 53"
  shows "\<bar>dsub x y\<bar> \<le> B"
proof -
  from rnd_mono [OF assms(1)] have "rnd \<bar>x - y\<bar> \<le> rnd B" .
  then show ?thesis
    by (simp add: dsub_def rnd_abs rnd_Ints [OF assms(2,3)])
qed

lemma newGameSpeed_range:
  assumes "0 \<le> l" and "l \<le> 20"
  shows "\<bar>newGameSpeed l\<bar> \<le> 40"
proof -
  have "\<bar>min (2 + 1.2 * l) 30\<bar> \<le> 30"
    using assms by (simp add: min_def)
  moreover have "(1::real) / 2 ^ 46 \<le> 1" by simp
  ultimately show ?thesis
    using newGameSpeed_near [OF assms] by argo
qed

lemma updateDifficulty_tolerance:
  assumes "\<not> \<bar>dsub (difficultyLevel gs) (roundedDifficulty (score gs))\<bar> < rnd 0.1"
    and "0 \<le> min (roundedDifficulty (score gs)) 20"
  shows "\<bar>dsub (gameSpeed (updateDifficulty gs))
             (newGameSpeed (difficultyLevel (updateDifficulty gs)))\<bar> \<le> rnd 0.1"
    and "\<bar>dsub (obstacleSpawnRate (updateDifficulty gs))
             (newObstacleSpawnRate (difficultyLevel (updateDifficulty gs)))\<bar> \<le> 50"
    and "\<bar>dsub (powerUpSpawnRate (updateDifficulty gs))
             (newPowerUpSpawnRate (difficultyLevel (updateDifficulty gs)))\<bar> \<le> 100"
proof -
  define l where "l = min (roundedDifficulty (score gs)) 20"
  have l: "0 \<le> l" "l \<le> 20"
    using assms(2) by (simp_all add: l_def)
  note f = updateDifficulty_fields [OF assms(1), folded l_def]
  have z: "\<bar>dsub v v\<bar> = 0" for v
    by (simp add: dsub_def rnd_0)
  have "\<bar>ddiv (jsRound (dmul (newGameSpeed l) 100)) 100 - newGameSpeed l\<bar> \<le> 6 / 1000"
    using newGameSpeed_range [OF l] by (rule round2_near)
  then have "\<bar>ddiv (jsRound (dmul (newGameSpeed l) 100)) 100 - newGameSpeed l\<bar> \<le> 999999 / 10000000"
    by simp
  from guard_skipped [OF this]
  have g: "\<bar>dsub (ddiv (jsRound (dmul (newGameSpeed l) 100)) 100) (newGameSpeed l)\<bar> \<le> rnd 0.1"
    by simp
  show "\<bar>dsub (gameSpeed (updateDifficulty gs))
             (newGameSpeed (difficultyLevel (updateDifficulty gs)))\<bar> \<le> rnd 0.1"
    unfolding f using g by (simp only: split: if_split) simp
  show "\<bar>dsub (obstacleSpawnRate (updateDifficulty gs))
             (newObstacleSpawnRate (difficultyLevel (updateDifficulty gs)))\<bar> \<le> 50"
    unfolding f by (simp only: split: if_split) (simp add: z)
  show "\<bar>dsub (powerUpSpawnRate (updateDifficulty gs))
             (newPowerUpSpawnRate (difficultyLevel (updateDifficulty gs)))\<bar> \<le> 100"
    unfolding f by (simp only: split: if_split) (simp add: z)
qed

lemma levelLoop_values:
  "levelLoop 250 1 100 = (2, 300)" "levelLoop 50 1 100 = (1, 100)" "levelLoop 70 1 100 = (1, 100)"
  "levelLoop 19280 1 100 = (20, 21000)"
  by (simp_all add: levelLoop.simps)

lemma roundedDifficulty_250: "roundedDifficulty 250 = 2.75"
proof -
  have "roundedDifficulty (real 250) = rnd (of_int 275 / 100)"
    by (rule roundedDifficulty_value [where L = 2])
      (simp_all add: levelLoop_values [unfolded One_nat_def] specThreshold_def)
  moreover have "rnd (of_int 11 / 2 ^ 2) = of_int 11 / 2 ^ 2"
    by (rule rnd_dyadic) simp
  ultimately show ?thesis by simp
qed

lemma roundedDifficulty_50: "roundedDifficulty 50 = 1.5"
proof -
  have "roundedDifficulty (real 50) = rnd (of_int 150 / 100)"
    by (rule roundedDifficulty_value [where L = 1])
      (simp_all add: levelLoop_values [unfolded One_nat_def] specThreshold_def)
  moreover have "rnd (of_int 3 / 2 ^ 1) = of_int 3 / 2 ^ 1"
    by (rule rnd_dyadic) simp
  ultimately show ?thesis by simp
qed

lemma roundedDifficulty_70: "roundedDifficulty 70 = rnd 1.7"
proof -
  have "roundedDifficulty (real 70) = rnd (of_int 170 / 100)"
    by (rule roundedDifficulty_value [where L = 1])
      (simp_all add: levelLoop_values [unfolded One_nat_def] specThreshold_def)
  then show ?thesis by simp
qed

lemma roundedDifficulty_19280: "roundedDifficulty 19280 = rnd 20.14"
proof -
  have "roundedDifficulty (real 19280) = rnd (of_int 2014 / 100)"
    by (rule roundedDifficulty_value [where L = 20])
      (simp_all add: levelLoop_values [unfolded One_nat_def] specThreshold_def)
  then show ?thesis by simp
qed

lemma rnd_near:
  assumes "0 \<le> x"
  shows "x - x / 2 ^ 53 \<le> rnd x" and "rnd x \<le> x + x / 2 ^ 53"
  using rnd_error [of x] assms by (simp_all add: abs_le_iff) argo+

lemma levelLoop_18900: "levelLoop 18900 1 100 = (19, 19000)"
  by (simp add: levelLoop.simps)

lemma roundedDifficulty_18900: "roundedDifficulty 18900 = rnd 19.95"
proof -
  have "roundedDifficulty (real 18900) = rnd (of_int 1995 / 100)"
    by (rule roundedDifficulty_value [where L = 19])
      (simp_all add: levelLoop_18900 [unfolded One_nat_def] specThreshold_def)
  then show ?thesis by simp
qed

lemma rnd_lower: "0 \<le> x \<Longrightarrow> lo \<le> x - x / 2 ^ 53 \<Longrightarrow> lo \<le> rnd x"
  using rnd_near(1) [of x] by linarith

lemma rnd_upper: "0 \<le> x \<Longrightarrow> x + x / 2 ^ 53 \<le> hi \<Longrightarrow> rnd x \<le> hi"
  using rnd_near(2) [of x] by linarith

text \<open>
  C1 (as amended). The score is a non-negative integer: it starts at 0 and
  collectPowerUp adds multiples of 10. For every such score \<open>s\<close> below \<open>2 ^ 50\<close>,
  updateDifficulty finds the largest integer level \<open>L\<close> with
  \<open>T(L) = 100 * L * (L - 1) / 2 \<le> s\<close>. It computes \<open>L + (s - T(L)) / (100 * L)\<close> in double
  arithmetic and rounds it to 2 decimals: the result is the double nearest to \<open>k / 100\<close>
  for an integer \<open>k\<close> that is within \<open>1/2 + 300 * (L + 2) / 2 ^ 53\<close> of 100 times the exact
  value. It compares this rounded value, before the cap at 20, with the previous
  difficultyLevel: when their difference, as a double, is below the double 0.1, the
  state is left as it is; otherwise difficultyLevel becomes the rounded value capped at
  20, which lies in [1, 20]. In terms of the exact difference of the two doubles: the
  update is skipped when it is at most 0.0999999 and applied when it is at least
  0.1000001. For \<open>s = 250\<close> the rounded value is 2.75.
\<close>

theorem updateDifficulty_level:
  assumes "score gs = real n" and "n < 2 ^ 50"
  shows "1 \<le> fst (levelLoop (score gs) 1 100) \<and>
    specThreshold (fst (levelLoop (score gs) 1 100)) \<le> score gs \<and>
    (\<forall>L'. specThreshold L' \<le> score gs \<longrightarrow> L' \<le> fst (levelLoop (score gs) 1 100)) \<and>
    (\<exists>k. roundedDifficulty (score gs) = rnd (of_int k / 100) \<and>
       \<bar>of_int k - 100 * (real (fst (levelLoop (score gs) 1 100))
          + (score gs - specThreshold (fst (levelLoop (score gs) 1 100)))
              / (100 * real (fst (levelLoop (score gs) 1 100))))\<bar>
         \<le> 1 / 2 + 300 * (real (fst (levelLoop (score gs) 1 100)) + 2) / 2 ^ 53) \<and>
    1 \<le> min (roundedDifficulty (score gs)) 20 \<and> min (roundedDifficulty (score gs)) 20 \<le> 20 \<and>
    (\<bar>dsub (difficultyLevel gs) (roundedDifficulty (score gs))\<bar> < rnd 0.1 \<longrightarrow>
       updateDifficulty gs = gs) \<and>
    (\<not> \<bar>dsub (difficultyLevel gs) (roundedDifficulty (score gs))\<bar> < rnd 0.1 \<longrightarrow>
       difficultyLevel (updateDifficulty gs) = min (roundedDifficulty (score gs)) 20) \<and>
    (\<bar>difficultyLevel gs - roundedDifficulty (score gs)\<bar> \<le> 999999 / 10000000 \<longrightarrow>
       updateDifficulty gs = gs) \<and>
    (1000001 / 10000000 \<le> \<bar>difficultyLevel gs - roundedDifficulty (score gs)\<bar> \<longrightarrow>
       difficultyLevel (updateDifficulty gs) = min (roundedDifficulty (score gs)) 20) \<and>
    roundedDifficulty 250 = 2.75"
proof -
  have s0: "0 \<le> score gs" by (simp add: assms(1))
  have a: "\<exists>k. roundedDifficulty (score gs) = rnd (of_int k / 100) \<and>
       \<bar>of_int k - 100 * (real (fst (levelLoop (score gs) 1 100))
          + (score gs - specThreshold (fst (levelLoop (score gs) 1 100)))
              / (100 * real (fst (levelLoop (score gs) 1 100))))\<bar>
         \<le> 1 / 2 + 300 * (real (fst (levelLoop (score gs) 1 100)) + 2) / 2 ^ 53"
  proof -
    from roundedDifficulty_analysis [OF assms(2)] obtain k where
      "roundedDifficulty (real n) = rnd (of_int k / 100)"
      "\<bar>of_int k - 100 * (real (fst (levelLoop (real n) 1 100))
          + (real n - specThreshold (fst (levelLoop (real n) 1 100)))
              / (100 * real (fst (levelLoop (real n) 1 100))))\<bar>
         \<le> 1 / 2 + 300 * (real (fst (levelLoop (real n) 1 100)) + 2) / 2 ^ 53"
      by (elim exE conjE)
    then show ?thesis
      unfolding assms(1) by (intro exI conjI)
  qed
  have r: "1 \<le> roundedDifficulty (score gs)"
    unfolding assms(1) using assms(2) by (rule roundedDifficulty_ge_1)
  have b: "1 \<le> min (roundedDifficulty (score gs)) 20" "min (roundedDifficulty (score gs)) 20 \<le> 20"
    using r by simp_all
  have c: "updateDifficulty gs = gs"
    if "\<bar>difficultyLevel gs - roundedDifficulty (score gs)\<bar> \<le> 999999 / 10000000"
    using guard_skipped [OF that] by (rule updateDifficulty_skipped)
  have d: "difficultyLevel (updateDifficulty gs) = min (roundedDifficulty (score gs)) 20"
    if "1000001 / 10000000 \<le> \<bar>difficultyLevel gs - roundedDifficulty (score gs)\<bar>"
    using guard_applied [OF that] by (rule updateDifficulty_fields(1))
  from level_largest [OF s0] a b c d updateDifficulty_skipped [of gs]
    updateDifficulty_fields(1) [of gs] roundedDifficulty_250
  show ?thesis
    by (intro conjI impI) simp_all
qed

theorem updateDifficulty_level_witness:
  "score ((initialGameState 0)\<lparr>score := 250\<rparr>) = real 250 \<and> (250::nat) < 2 ^ 50 \<and>
   fst (levelLoop 250 1 100) = 2 \<and>
   difficultyLevel (updateDifficulty ((initialGameState 0)\<lparr>score := 250\<rparr>)) = 2.75"
proof -
  have l: "levelLoop 250 1 100 = (2, 300)"
    by (simp add: levelLoop.simps)
  have d: "difficultyLevel ((initialGameState 0)\<lparr>score := 250\<rparr>) = 1"
    by (simp add: initialGameState_def)
  have s: "score ((initialGameState 0)\<lparr>score := 250\<rparr>) = 250"
    by simp
  have h: "score ((initialGameState 0)\<lparr>score := 250\<rparr>) = real 250" "(250::nat) < 2 ^ 50"
    by simp_all
  note t = updateDifficulty_level [OF h, unfolded s d]
  from t have r: "roundedDifficulty 250 = 2.75"
    by (elim conjE)
  from t have "1000001 / 10000000 \<le> \<bar>1 - roundedDifficulty 250\<bar> \<longrightarrow>
       difficultyLevel (updateDifficulty ((initialGameState 0)\<lparr>score := 250\<rparr>))
         = min (roundedDifficulty 250) 20"
    by (elim conjE)
  then show ?thesis
    unfolding r by (simp add: l l [unfolded One_nat_def])
qed

text \<open>
  The 0.1 threshold is tested before the cap, so an update can be applied although the
  new level is closer than 0.1 to the old one: the update at a score of 18900 sets the
  level to 19.95; when the next update finds a score of 19280 (a rare pickup of 380
  points) the rounded value is 20.14 and the level becomes 20, a change of 0.05.
\<close>

theorem updateDifficulty_clamp_counterexample:
  "difficultyLevel (updateDifficulty ((initialGameState 0)\<lparr>score := 18900\<rparr>)) = rnd 19.95 \<and>
   difficultyLevel (updateDifficulty
     ((updateDifficulty ((initialGameState 0)\<lparr>score := 18900\<rparr>))\<lparr>score := 19280\<rparr>)) = 20 \<and>
   \<bar>dsub 20 (rnd 19.95)\<bar> < rnd 0.1 \<and> \<bar>20 - rnd 19.95\<bar> < 1 / 10"
proof -
  let ?A = "updateDifficulty ((initialGameState 0)\<lparr>score := 18900\<rparr>)"
  have x: "1994 / 100 \<le> rnd 19.95" "rnd 19.95 \<le> 1996 / 100"
    by (rule rnd_lower, simp, simp) (rule rnd_upper, simp, simp)
  have y: "2013 / 100 \<le> rnd 20.14" "rnd 20.14 \<le> 2015 / 100"
    by (rule rnd_lower, simp, simp) (rule rnd_upper, simp, simp)
  have "20 \<le> rnd 20.14"
    using rnd_mono [of 20 "20.14"] rnd_int [of 20] by simp
  then have m: "min (rnd 20.14) 20 = 20" by simp
  have m': "min (rnd 19.95) 20 = rnd 19.95"
    using x(2) by (simp only: min_def) argo
  have "1000001 / 10000000 \<le> \<bar>1 - rnd 19.95\<bar>"
    using x by argo
  from guard_applied [OF this]
  have n: "\<not> \<bar>dsub (difficultyLevel ((initialGameState 0)\<lparr>score := 18900\<rparr>))
      (roundedDifficulty (score ((initialGameState 0)\<lparr>score := 18900\<rparr>)))\<bar> < rnd 0.1"
    by (simp add: initialGameState_def roundedDifficulty_18900)
  have sc: "score ((initialGameState 0)\<lparr>score := 18900\<rparr>) = 18900"
    "score (?A\<lparr>score := 19280\<rparr>) = 19280"
    by simp_all
  have a: "difficultyLevel ?A = rnd 19.95"
    unfolding updateDifficulty_fields(1) [OF n] sc roundedDifficulty_18900 by (rule m')
  have "1000001 / 10000000 \<le> \<bar>rnd 19.95 - rnd 20.14\<bar>"
    using x y by argo
  from guard_applied [OF this]
  have n': "\<not> \<bar>dsub (difficultyLevel (?A\<lparr>score := 19280\<rparr>))
      (roundedDifficulty (score (?A\<lparr>score := 19280\<rparr>)))\<bar> < rnd 0.1"
    by (simp add: a roundedDifficulty_19280)
  have b: "difficultyLevel (updateDifficulty (?A\<lparr>score := 19280\<rparr>)) = 20"
    unfolding updateDifficulty_fields(1) [OF n'] sc roundedDifficulty_19280 by (rule m)
  have c: "\<bar>20 - rnd 19.95\<bar> \<le> 999999 / 10000000"
    using x by argo
  have d: "\<bar>20 - rnd 19.95\<bar> < 1 / 10"
    using x by argo
  from a b guard_skipped [OF c] d show ?thesis
    by (intro conjI)
qed

lemma round2_value:
  assumes "\<bar>g - of_int m / 100\<bar> \<le> 45 / 10000" and "\<bar>g\<bar> \<le> 40"
  shows "ddiv (jsRound (dmul g 100)) 100 = rnd (of_int m / 100)"
proof -
  define c where "c = rnd (g * 100)"
  have "\<bar>g * 100\<bar> \<le> 4000" using assms(2) by (simp add: abs_mult)
  from rnd_error_bound [OF this] have ec: "\<bar>c - g * 100\<bar> \<le> 4000 / 2 ^ 53"
    by (simp add: c_def)
  have t: "(4000::real) / 2 ^ 53 \<le> 1 / 100" by simp
  have "of_int m \<le> c + 1 / 2" "c + 1 / 2 < of_int m + 1"
    using ec assms(1) t by argo+
  then have "\<lfloor>c + 1 / 2\<rfloor> = m"
    by (intro floor_unique) simp_all
  then show ?thesis
    by (simp add: ddiv_def dmul_def jsRound_def c_def)
qed

lemma tunables_15:
  "newObstacleSpawnRate 1.5 = 1310" "newPowerUpSpawnRate 1.5 = 5300"
  by (simp_all add: newObstacleSpawnRate_def newPowerUpSpawnRate_def dsub_def dadd_def dmul_def rnd_Ints)

lemma rnd_17_bounds: "169 / 100 \<le> rnd 1.7" "rnd 1.7 \<le> 171 / 100"
  by (rule rnd_lower, simp, simp) (rule rnd_upper, simp, simp)

lemma after_50:
  "difficultyLevel (updateDifficulty ((initialGameState 0)\<lparr>score := 50\<rparr>)) = 1.5"
  "gameSpeed (updateDifficulty ((initialGameState 0)\<lparr>score := 50\<rparr>)) = rnd 3.8"
  "obstacleSpawnRate (updateDifficulty ((initialGameState 0)\<lparr>score := 50\<rparr>)) = 1310"
  "powerUpSpawnRate (updateDifficulty ((initialGameState 0)\<lparr>score := 50\<rparr>)) = 5300"
proof -
  let ?S = "(initialGameState 0)\<lparr>score := 50\<rparr>"
  have i: "score ?S = 50" "difficultyLevel ?S = 1" "gameSpeed ?S = 2"
    "obstacleSpawnRate ?S = 1800" "powerUpSpawnRate ?S = 5000"
    by (simp_all add: initialGameState_def)
  have "1000001 / 10000000 \<le> \<bar>1 - (1.5::real)\<bar>" by simp
  from guard_applied [OF this]
  have n: "\<not> \<bar>dsub (difficultyLevel ?S) (roundedDifficulty (score ?S))\<bar> < rnd 0.1"
    unfolding i roundedDifficulty_50 .
  have m: "min (1.5::real) 20 = 1.5" by simp
  note f = updateDifficulty_fields [OF n, unfolded i roundedDifficulty_50 m]
  show "difficultyLevel (updateDifficulty ?S) = 1.5"
    by (rule f)
  have g: "\<bar>newGameSpeed 1.5 - 380 / 100\<bar> \<le> 1 / 2 ^ 46"
    using newGameSpeed_near [of "1.5"] by simp
  have t: "(1::real) / 2 ^ 46 \<le> 45 / 10000" by simp
  have g1: "\<bar>newGameSpeed 1.5 - of_int 380 / 100\<bar> \<le> 45 / 10000"
    using g t by simp
  have g2: "\<bar>newGameSpeed 1.5\<bar> \<le> 40"
    by (rule newGameSpeed_range) simp_all
  have g3: "1000001 / 10000000 \<le> \<bar>2 - newGameSpeed 1.5\<bar>"
    using g t by argo
  have v: "ddiv (jsRound (dmul (newGameSpeed 1.5) 100)) 100 = rnd 3.8"
    using round2_value [OF g1 g2] by simp
  show "gameSpeed (updateDifficulty ?S) = rnd 3.8"
    unfolding f(2) v using guard_exceeded [OF g3] by (simp only: if_True)
  show "obstacleSpawnRate (updateDifficulty ?S) = 1310"
    unfolding f(3) tunables_15 by (simp add: dsub_def rnd_Ints)
  show "powerUpSpawnRate (updateDifficulty ?S) = 5300"
    unfolding f(4) tunables_15 by (simp add: dsub_def rnd_Ints)
qed

lemma newObstacleSpawnRate_17: "1297 \<le> newObstacleSpawnRate (rnd 1.7)" "newObstacleSpawnRate (rnd 1.7) \<le> 1299"
proof -
  have l: "0 \<le> rnd 1.7" "rnd 1.7 \<le> 20"
    using rnd_17_bounds by argo+
  have t: "(1::real) / 2 ^ 41 \<le> 1 / 10" by simp
  have "max (1400 - 60 * rnd 1.7) 300 = 1400 - 60 * rnd 1.7"
    using rnd_17_bounds by (simp only: max_def) argo
  with newObstacleSpawnRate_near [OF l]
  have "\<bar>newObstacleSpawnRate (rnd 1.7) - (1400 - 60 * rnd 1.7)\<bar> \<le> 1 / 2 ^ 41"
    by (simp only:)
  with t rnd_17_bounds show "1297 \<le> newObstacleSpawnRate (rnd 1.7)"
    "newObstacleSpawnRate (rnd 1.7) \<le> 1299"
    by argo+
qed

lemma after_50_70:
  "difficultyLevel (updateDifficulty
     ((updateDifficulty ((initialGameState 0)\<lparr>score := 50\<rparr>))\<lparr>score := 70\<rparr>)) = rnd 1.7"
  "obstacleSpawnRate (updateDifficulty
     ((updateDifficulty ((initialGameState 0)\<lparr>score := 50\<rparr>))\<lparr>score := 70\<rparr>)) = 1310"
proof -
  let ?A = "updateDifficulty ((initialGameState 0)\<lparr>score := 50\<rparr>)"
  have i: "score (?A\<lparr>score := 70\<rparr>) = 70" "difficultyLevel (?A\<lparr>score := 70\<rparr>) = 1.5"
    "obstacleSpawnRate (?A\<lparr>score := 70\<rparr>) = 1310"
    by (simp_all add: after_50)
  have "1000001 / 10000000 \<le> \<bar>1.5 - rnd 1.7\<bar>"
    using rnd_17_bounds by argo
  from guard_applied [OF this]
  have n: "\<not> \<bar>dsub (difficultyLevel (?A\<lparr>score := 70\<rparr>))
      (roundedDifficulty (score (?A\<lparr>score := 70\<rparr>)))\<bar> < rnd 0.1"
    unfolding i roundedDifficulty_70 .
  have m: "min (rnd 1.7) 20 = rnd 1.7"
    using rnd_17_bounds(2) by (simp only: min_def) argo
  note f = updateDifficulty_fields [OF n, unfolded i roundedDifficulty_70 m]
  show "difficultyLevel (updateDifficulty (?A\<lparr>score := 70\<rparr>)) = rnd 1.7"
    by (rule f)
  have "\<bar>1310 - newObstacleSpawnRate (rnd 1.7)\<bar> \<le> 13"
    using newObstacleSpawnRate_17 by argo
  then have "\<bar>dsub 1310 (newObstacleSpawnRate (rnd 1.7))\<bar> \<le> 13"
    by (rule guard_le) simp_all
  then have "\<not> \<bar>dsub 1310 (newObstacleSpawnRate (rnd 1.7))\<bar> > 50"
    by simp
  then show "obstacleSpawnRate (updateDifficulty (?A\<lparr>score := 70\<rparr>)) = 1310"
    unfolding f(3) by (simp only: if_False)
qed

text \<open>
  C8 (as amended). For every level \<open>a\<close> in [1, 20] the values updateDifficulty computes
  from the level are \<open>min(2 + 1.2 * a, 30)\<close>, \<open>max(1400 - 60 * a, 300)\<close> and
  \<open>max(5000 + 200 * a, 3000)\<close> evaluated in double arithmetic, which is within \<open>2 ^ -46\<close>,
  \<open>2 ^ -41\<close> and \<open>2 ^ -39\<close> of the exact values; the first and the third are non-decreasing
  in the level, the second is non-increasing, and each stays within its clamp. The
  stored gameSpeed, obstacleSpawnRate and powerUpSpawnRate are overwritten with these
  values (gameSpeed rounded to 2 decimals) only when their difference from them, as a
  double, is more than the double 0.1, 50 and 100; otherwise they keep their previous
  value. After an applied update (at an integer score below \<open>2 ^ 50\<close>) the difference of
  each stored value from its formula is therefore at most that tolerance, not
  necessarily zero.
\<close>

theorem tunables_of_level:
  assumes "1 \<le> a" and "a \<le> b" and "b \<le> 20" and "score gs = real n" and "n < 2 ^ 50"
  shows "newGameSpeed a = min (dadd 2 (dmul a (rnd 1.2))) 30 \<and>
    newObstacleSpawnRate a = max (dsub 1400 (dmul a 60)) 300 \<and>
    newPowerUpSpawnRate a = max (dadd 5000 (dmul a 200)) 3000 \<and>
    \<bar>newGameSpeed a - min (2 + 1.2 * a) 30\<bar> \<le> 1 / 2 ^ 46 \<and>
    \<bar>newObstacleSpawnRate a - max (1400 - 60 * a) 300\<bar> \<le> 1 / 2 ^ 41 \<and>
    \<bar>newPowerUpSpawnRate a - max (5000 + 200 * a) 3000\<bar> \<le> 1 / 2 ^ 39 \<and>
    newGameSpeed a \<le> newGameSpeed b \<and>
    newObstacleSpawnRate b \<le> newObstacleSpawnRate a \<and>
    newPowerUpSpawnRate a \<le> newPowerUpSpawnRate b \<and>
    newGameSpeed a \<le> 30 \<and> 300 \<le> newObstacleSpawnRate a \<and> 3000 \<le> newPowerUpSpawnRate a \<and>
    (\<not> \<bar>dsub (difficultyLevel gs) (roundedDifficulty (score gs))\<bar> < rnd 0.1 \<longrightarrow>
       gameSpeed (updateDifficulty gs) =
         (if \<bar>dsub (gameSpeed gs) (newGameSpeed (difficultyLevel (updateDifficulty gs)))\<bar> > rnd 0.1
          then ddiv (jsRound (dmul (newGameSpeed (difficultyLevel (updateDifficulty gs))) 100)) 100
          else gameSpeed gs) \<and>
       obstacleSpawnRate (updateDifficulty gs) =
         (if \<bar>dsub (obstacleSpawnRate gs) (newObstacleSpawnRate (difficultyLevel (updateDifficulty gs)))\<bar> > 50
          then newObstacleSpawnRate (difficultyLevel (updateDifficulty gs))
          else obstacleSpawnRate gs) \<and>
       powerUpSpawnRate (updateDifficulty gs) =
         (if \<bar>dsub (powerUpSpawnRate gs) (newPowerUpSpawnRate (difficultyLevel (updateDifficulty gs)))\<bar> > 100
          then newPowerUpSpawnRate (difficultyLevel (updateDifficulty gs))
          else powerUpSpawnRate gs) \<and>
       \<bar>dsub (gameSpeed (updateDifficulty gs))
            (newGameSpeed (difficultyLevel (updateDifficulty gs)))\<bar> \<le> rnd 0.1 \<and>
       \<bar>dsub (obstacleSpawnRate (updateDifficulty gs))
            (newObstacleSpawnRate (difficultyLevel (updateDifficulty gs)))\<bar> \<le> 50 \<and>
       \<bar>dsub (powerUpSpawnRate (updateDifficulty gs))
            (newPowerUpSpawnRate (difficultyLevel (updateDifficulty gs)))\<bar> \<le> 100)"
proof -
  have a: "0 \<le> a" "a \<le> 20" using assms(1,2,3) by simp_all
  have f: "newGameSpeed a = min (dadd 2 (dmul a (rnd 1.2))) 30"
    "newObstacleSpawnRate a = max (dsub 1400 (dmul a 60)) 300"
    "newPowerUpSpawnRate a = max (dadd 5000 (dmul a 200)) 3000"
    by (simp_all only: newGameSpeed_def newObstacleSpawnRate_def newPowerUpSpawnRate_def)
  have b: "newGameSpeed a \<le> 30" "300 \<le> newObstacleSpawnRate a" "3000 \<le> newPowerUpSpawnRate a"
    by (simp_all add: newGameSpeed_def newObstacleSpawnRate_def newPowerUpSpawnRate_def)
  have "1 \<le> roundedDifficulty (score gs)"
    unfolding assms(4) using assms(5) by (rule roundedDifficulty_ge_1)
  then have r: "0 \<le> min (roundedDifficulty (score gs)) 20"
    by simp
  have u: "\<not> \<bar>dsub (difficultyLevel gs) (roundedDifficulty (score gs))\<bar> < rnd 0.1 \<longrightarrow>
       gameSpeed (updateDifficulty gs) =
         (if \<bar>dsub (gameSpeed gs) (newGameSpeed (difficultyLevel (updateDifficulty gs)))\<bar> > rnd 0.1
          then ddiv (jsRound (dmul (newGameSpeed (difficultyLevel (updateDifficulty gs))) 100)) 100
          else gameSpeed gs) \<and>
       obstacleSpawnRate (updateDifficulty gs) =
         (if \<bar>dsub (obstacleSpawnRate gs) (newObstacleSpawnRate (difficultyLevel (updateDifficulty gs)))\<bar> > 50
          then newObstacleSpawnRate (difficultyLevel (updateDifficulty gs))
          else obstacleSpawnRate gs) \<and>
       powerUpSpawnRate (updateDifficulty gs) =
         (if \<bar>dsub (powerUpSpawnRate gs) (newPowerUpSpawnRate (difficultyLevel (updateDifficulty gs)))\<bar> > 100
          then newPowerUpSpawnRate (difficultyLevel (updateDifficulty gs))
          else powerUpSpawnRate gs) \<and>
       \<bar>dsub (gameSpeed (updateDifficulty gs))
            (newGameSpeed (difficultyLevel (updateDifficulty gs)))\<bar> \<le> rnd 0.1 \<and>
       \<bar>dsub (obstacleSpawnRate (updateDifficulty gs))
            (newObstacleSpawnRate (difficultyLevel (updateDifficulty gs)))\<bar> \<le> 50 \<and>
       \<bar>dsub (powerUpSpawnRate (updateDifficulty gs))
            (newPowerUpSpawnRate (difficultyLevel (updateDifficulty gs)))\<bar> \<le> 100"
  proof (rule impI)
    assume g: "\<not> \<bar>dsub (difficultyLevel gs) (roundedDifficulty (score gs))\<bar> < rnd 0.1"
    note p = updateDifficulty_fields [OF g]
    note q = updateDifficulty_tolerance [OF g r]
    have p2: "gameSpeed (updateDifficulty gs) =
         (if \<bar>dsub (gameSpeed gs) (newGameSpeed (difficultyLevel (updateDifficulty gs)))\<bar> > rnd 0.1
          then ddiv (jsRound (dmul (newGameSpeed (difficultyLevel (updateDifficulty gs))) 100)) 100
          else gameSpeed gs)"
      unfolding p(1) by (rule p(2))
    have p3: "obstacleSpawnRate (updateDifficulty gs) =
         (if \<bar>dsub (obstacleSpawnRate gs) (newObstacleSpawnRate (difficultyLevel (updateDifficulty gs)))\<bar> > 50
          then newObstacleSpawnRate (difficultyLevel (updateDifficulty gs))
          else obstacleSpawnRate gs)"
      unfolding p(1) by (rule p(3))
    have p4: "powerUpSpawnRate (updateDifficulty gs) =
         (if \<bar>dsub (powerUpSpawnRate gs) (newPowerUpSpawnRate (difficultyLevel (updateDifficulty gs)))\<bar> > 100
          then newPowerUpSpawnRate (difficultyLevel (updateDifficulty gs))
          else powerUpSpawnRate gs)"
      unfolding p(1) by (rule p(4))
    from p2 p3 p4 q show "gameSpeed (updateDifficulty gs) =
         (if \<bar>dsub (gameSpeed gs) (newGameSpeed (difficultyLevel (updateDifficulty gs)))\<bar> > rnd 0.1
          then ddiv (jsRound (dmul (newGameSpeed (difficultyLevel (updateDifficulty gs))) 100)) 100
          else gameSpeed gs) \<and>
       obstacleSpawnRate (updateDifficulty gs) =
         (if \<bar>dsub (obstacleSpawnRate gs) (newObstacleSpawnRate (difficultyLevel (updateDifficulty gs)))\<bar> > 50
          then newObstacleSpawnRate (difficultyLevel (updateDifficulty gs))
          else obstacleSpawnRate gs) \<and>
       powerUpSpawnRate (updateDifficulty gs) =
         (if \<bar>dsub (powerUpSpawnRate gs) (newPowerUpSpawnRate (difficultyLevel (updateDifficulty gs)))\<bar> > 100
          then newPowerUpSpawnRate (difficultyLevel (updateDifficulty gs))
          else powerUpSpawnRate gs) \<and>
       \<bar>dsub (gameSpeed (updateDifficulty gs))
            (newGameSpeed (difficultyLevel (updateDifficulty gs)))\<bar> \<le> rnd 0.1 \<and>
       \<bar>dsub (obstacleSpawnRate (updateDifficulty gs))
            (newObstacleSpawnRate (difficultyLevel (updateDifficulty gs)))\<bar> \<le> 50 \<and>
       \<bar>dsub (powerUpSpawnRate (updateDifficulty gs))
            (newPowerUpSpawnRate (difficultyLevel (updateDifficulty gs)))\<bar> \<le> 100"
      by (intro conjI)
  qed
  from f newGameSpeed_near [OF a] newObstacleSpawnRate_near [OF a] newPowerUpSpawnRate_near [OF a]
    tunables_mono [OF a(1) assms(2)] b u
  show ?thesis
    by (intro conjI)
qed

theorem tunables_of_level_witness:
  "((1::real) \<le> 1.5 \<and> (1.5::real) \<le> 1.7 \<and> (1.7::real) \<le> 20 \<and>
    score ((initialGameState 0)\<lparr>score := 50\<rparr>) = real 50 \<and> (50::nat) < 2 ^ 50) \<and>
   newObstacleSpawnRate 1.7 \<le> newObstacleSpawnRate 1.5 \<and>
   newObstacleSpawnRate 1.5 = 1310 \<and> newPowerUpSpawnRate 1.5 = 5300 \<and>
   \<bar>newGameSpeed 1.5 - 3.8\<bar> \<le> 1 / 2 ^ 46 \<and>
   \<not> \<bar>dsub (difficultyLevel ((initialGameState 0)\<lparr>score := 50\<rparr>))
         (roundedDifficulty (score ((initialGameState 0)\<lparr>score := 50\<rparr>)))\<bar> < rnd 0.1 \<and>
   difficultyLevel (updateDifficulty ((initialGameState 0)\<lparr>score := 50\<rparr>)) = 1.5 \<and>
   gameSpeed (updateDifficulty ((initialGameState 0)\<lparr>score := 50\<rparr>)) = rnd 3.8 \<and>
   obstacleSpawnRate (updateDifficulty ((initialGameState 0)\<lparr>score := 50\<rparr>)) = 1310 \<and>
   powerUpSpawnRate (updateDifficulty ((initialGameState 0)\<lparr>score := 50\<rparr>)) = 5300"
proof -
  let ?S = "(initialGameState 0)\<lparr>score := 50\<rparr>"
  have h: "(1::real) \<le> 1.5" "(1.5::real) \<le> 1.7" "(1.7::real) \<le> 20"
    "score ?S = real 50" "(50::nat) < 2 ^ 50"
    by simp_all
  have i: "score ?S = 50" "difficultyLevel ?S = 1"
    by (simp_all add: initialGameState_def)
  have "1000001 / 10000000 \<le> \<bar>1 - (1.5::real)\<bar>" by simp
  from guard_applied [OF this]
  have n: "\<not> \<bar>dsub (difficultyLevel ?S) (roundedDifficulty (score ?S))\<bar> < rnd 0.1"
    unfolding i roundedDifficulty_50 .
  note t = tunables_of_level [OF h]
  from t have m: "newObstacleSpawnRate 1.7 \<le> newObstacleSpawnRate 1.5"
    by (elim conjE)
  from t have "\<bar>newGameSpeed 1.5 - min (2 + 1.2 * 1.5) 30\<bar> \<le> 1 / 2 ^ 46"
    by (elim conjE)
  then have g: "\<bar>newGameSpeed 1.5 - 3.8\<bar> \<le> 1 / 2 ^ 46"
    by simp
  from h m g n tunables_15 after_50 show ?thesis
    by (intro conjI)
qed

text \<open>
  The stored values do not follow the formulas: the initial state has level 1 and
  gameSpeed 2, where the formula gives 3.2; and after the updates at scores 50 and 70
  the level is 1.7 while obstacleSpawnRate is still 1310, where the formula gives 1298.
\<close>

theorem tunables_stale_counterexample:
  "difficultyLevel (initialGameState 0) = 1 \<and> gameSpeed (initialGameState 0) = 2 \<and>
   min (2 + 1.2 * difficultyLevel (initialGameState 0)) 30 = 3.2 \<and>
   3 < newGameSpeed (difficultyLevel (initialGameState 0)) \<and>
   difficultyLevel (updateDifficulty
     ((updateDifficulty ((initialGameState 0)\<lparr>score := 50\<rparr>))\<lparr>score := 70\<rparr>)) = rnd 1.7 \<and>
   obstacleSpawnRate (updateDifficulty
     ((updateDifficulty ((initialGameState 0)\<lparr>score := 50\<rparr>))\<lparr>score := 70\<rparr>)) = 1310 \<and>
   max (1400 - 60 * rnd 1.7) 300 < 1299 \<and>
   newObstacleSpawnRate (rnd 1.7) \<le> 1299"
proof -
  have i: "difficultyLevel (initialGameState 0) = 1" "gameSpeed (initialGameState 0) = 2"
    by (simp_all add: initialGameState_def)
  have a: "min (2 + 1.2 * (1::real)) 30 = 3.2" by simp
  have t: "(1::real) / 2 ^ 46 \<le> 1 / 10" by simp
  have "\<bar>newGameSpeed 1 - 32 / 10\<bar> \<le> 1 / 2 ^ 46"
    using newGameSpeed_near [of 1] by simp
  with t have b: "3 < newGameSpeed 1" by argo
  have c: "max (1400 - 60 * rnd 1.7) 300 < 1299"
    using rnd_17_bounds by (simp only: max_def) argo
  from i a b after_50_70 c newObstacleSpawnRate_17(2) show ?thesis
    unfolding i by (intro conjI)
qed

text \<open>
  Three places where the last bit of a double decides. From level 1.6 (set at a score
  of 60), a score of 70 gives 1.7, but \<open>1.6 - 1.7\<close> is \<open>-0.09999999999999987\<close> in doubles,
  below 0.1, and the state is left as it is. At a score of 690 the exact value is 4.225,
  but \<open>4.225 * 100\<close> is \<open>422.49999999999994\<close> in doubles and the rounded value is 4.22. And
  with gameSpeed 25.9 (set at a score of 18840) the update at a score of 19220 finds the
  new speed 26; \<open>25.9 - 26\<close> is \<open>-0.10000000000000142\<close> in doubles, more than 0.1 in
  magnitude, and gameSpeed is overwritten with 26.
\<close>

lemma rnd_16: "rnd 1.6 = 7205759403792794 / 2 ^ 52"
  by (subst rnd_at [of 0]) (simp_all add: roundEven_def Let_def powr_neg_numeral)

lemma rnd_17: "rnd 1.7 = 7656119366529843 / 2 ^ 52"
  by (subst rnd_at [of 0]) (simp_all add: roundEven_def Let_def powr_neg_numeral)

lemma rnd_259: "rnd 25.9 = 7290201896805990 / 2 ^ 48"
  by (subst rnd_at [of 4]) (simp_all add: roundEven_def Let_def powr_neg_numeral)

lemma roundedDifficulty_unfold:
  assumes "n < 2 ^ 50" and "fst (levelLoop (real n) 1 100) = L"
  shows "roundedDifficulty (real n) =
    ddiv (jsRound (dmul (dadd (real L) (ddiv (real n - specThreshold L) (100 * real L))) 100)) 100"
proof -
  have n0: "0 \<le> real n" by simp
  note br = level_bracket [OF n0, unfolded assms(2)]
  note li = level_ints [OF br(1,2) assms(1)]
  show ?thesis
    unfolding roundedDifficulty_def Let_def assms(2) li(1) li(2) li(3) ..
qed

lemma levelLoop_more:
  "levelLoop 60 1 100 = (1, 100)" "levelLoop 690 1 100 = (4, 1000)"
  "levelLoop 19220 1 100 = (20, 21000)"
  by (simp_all add: levelLoop.simps)

lemma roundedDifficulty_60: "roundedDifficulty 60 = rnd 1.6"
proof -
  have "roundedDifficulty (real 60) = rnd (of_int 160 / 100)"
    by (rule roundedDifficulty_value [where L = 1])
      (simp_all add: levelLoop_more [unfolded One_nat_def] specThreshold_def)
  then show ?thesis by simp
qed

lemma roundedDifficulty_19220: "roundedDifficulty 19220 = rnd 20.11"
proof -
  have "roundedDifficulty (real 19220) = rnd (of_int 2011 / 100)"
    by (rule roundedDifficulty_value [where L = 20])
      (simp_all add: levelLoop_more [unfolded One_nat_def] specThreshold_def)
  then show ?thesis by simp
qed

lemma dsub_16_17: "\<bar>dsub (rnd 1.6) (rnd 1.7)\<bar> < rnd 0.1"
proof -
  have "rnd 1.6 - rnd 1.7 = of_int (- 450359962737049) / 2 ^ 52"
    unfolding rnd_16 rnd_17 by simp
  moreover have "rnd (of_int (- 450359962737049) / 2 ^ 52) = of_int (- 450359962737049) / 2 ^ 52"
    by (rule rnd_dyadic) simp
  ultimately have "dsub (rnd 1.6) (rnd 1.7) = - 450359962737049 / 2 ^ 52"
    by (simp add: dsub_def)
  then show ?thesis
    unfolding rnd_01 by simp
qed

lemma level_16_kept:
  "difficultyLevel (updateDifficulty ((initialGameState 0)\<lparr>score := 60\<rparr>)) = rnd 1.6"
  "updateDifficulty ((updateDifficulty ((initialGameState 0)\<lparr>score := 60\<rparr>))\<lparr>score := 70\<rparr>)
     = (updateDifficulty ((initialGameState 0)\<lparr>score := 60\<rparr>))\<lparr>score := 70\<rparr>"
  "roundedDifficulty 70 = rnd 1.7"
proof -
  let ?S = "(initialGameState 0)\<lparr>score := 60\<rparr>"
  let ?A = "updateDifficulty ?S"
  have i: "score ?S = 60" "difficultyLevel ?S = 1"
    by (simp_all add: initialGameState_def)
  have x: "159 / 100 \<le> rnd 1.6" "rnd 1.6 \<le> 161 / 100"
    by (rule rnd_lower, simp, simp) (rule rnd_upper, simp, simp)
  have "1000001 / 10000000 \<le> \<bar>1 - rnd 1.6\<bar>"
    using x by argo
  from guard_applied [OF this]
  have n: "\<not> \<bar>dsub (difficultyLevel ?S) (roundedDifficulty (score ?S))\<bar> < rnd 0.1"
    unfolding i roundedDifficulty_60 .
  have m: "min (rnd 1.6) 20 = rnd 1.6"
    using x(2) by (simp only: min_def) argo
  show a: "difficultyLevel ?A = rnd 1.6"
    unfolding updateDifficulty_fields(1) [OF n] i roundedDifficulty_60 by (rule m)
  have j: "score (?A\<lparr>score := 70\<rparr>) = 70" "difficultyLevel (?A\<lparr>score := 70\<rparr>) = rnd 1.6"
    by (simp_all add: a)
  have "\<bar>dsub (difficultyLevel (?A\<lparr>score := 70\<rparr>)) (roundedDifficulty (score (?A\<lparr>score := 70\<rparr>)))\<bar> < rnd 0.1"
    unfolding j roundedDifficulty_70 by (rule dsub_16_17)
  then show "updateDifficulty (?A\<lparr>score := 70\<rparr>) = ?A\<lparr>score := 70\<rparr>"
    by (rule updateDifficulty_skipped)
  show "roundedDifficulty 70 = rnd 1.7"
    by (rule roundedDifficulty_70)
qed

lemma roundedDifficulty_690: "roundedDifficulty 690 = rnd 4.22"
proof -
  have u: "roundedDifficulty (real 690) =
    ddiv (jsRound (dmul (dadd (real 4) (ddiv (real 690 - specThreshold 4) (100 * real 4))) 100)) 100"
    by (rule roundedDifficulty_unfold) (simp_all add: levelLoop_more [unfolded One_nat_def])
  have a: "ddiv (real 690 - specThreshold 4) (100 * real 4) = 8106479329266893 / 2 ^ 55"
    unfolding ddiv_def
    by (subst rnd_at [of "- 3"]) (simp_all add: specThreshold_def roundEven_def Let_def powr_neg_numeral)
  have b: "dadd (real 4) (8106479329266893 / 2 ^ 55) = 4756927106410086 / 2 ^ 50"
    unfolding dadd_def
    by (subst rnd_at [of 2]) (simp_all add: roundEven_def Let_def powr_neg_numeral)
  have c: "dmul (4756927106410086 / 2 ^ 50) 100 = 7432698603765759 / 2 ^ 44"
    unfolding dmul_def
    by (subst rnd_at [of 8]) (simp_all add: roundEven_def Let_def powr_neg_numeral)
  have "\<lfloor>7432698603765759 / 2 ^ 44 + 1 / 2 :: real\<rfloor> = 422"
    by (intro floor_unique) simp_all
  then have d: "jsRound (7432698603765759 / 2 ^ 44) = 422"
    by (simp add: jsRound_def)
  have "roundedDifficulty (real 690) = ddiv 422 100"
    unfolding u a b c d ..
  then show ?thesis
    by (simp add: ddiv_def)
qed

lemma levelLoop_18840: "levelLoop 18840 1 100 = (19, 19000)"
  by (simp add: levelLoop.simps)

lemma roundedDifficulty_18840: "roundedDifficulty 18840 = rnd 19.92"
proof -
  have "roundedDifficulty (real 18840) = rnd (of_int 1992 / 100)"
    by (rule roundedDifficulty_value [where L = 19])
      (simp_all add: levelLoop_18840 [unfolded One_nat_def] specThreshold_def)
  then show ?thesis by simp
qed

lemma newGameSpeed_20: "newGameSpeed 20 = 26"
proof -
  have "dmul 20 (rnd 1.2) = 24"
    unfolding dmul_def rnd_12
    by (subst rnd_at [of 4]) (simp_all add: roundEven_def Let_def powr_neg_numeral)
  then show ?thesis
    by (simp add: newGameSpeed_def dadd_def rnd_Ints)
qed

lemma dsub_259_26: "rnd 0.1 < \<bar>dsub (rnd 25.9) 26\<bar>"
proof -
  have "rnd 25.9 - 26 = of_int (- 28147497671066) / 2 ^ 48"
    unfolding rnd_259 by simp
  moreover have "rnd (of_int (- 28147497671066) / 2 ^ 48) = of_int (- 28147497671066) / 2 ^ 48"
    by (rule rnd_dyadic) simp
  ultimately have "dsub (rnd 25.9) 26 = - 28147497671066 / 2 ^ 48"
    by (simp add: dsub_def)
  then show ?thesis
    unfolding rnd_01 by simp
qed

lemma gameSpeed_259_overwritten:
  "difficultyLevel (updateDifficulty ((initialGameState 0)\<lparr>score := 18840\<rparr>)) = rnd 19.92"
  "gameSpeed (updateDifficulty ((initialGameState 0)\<lparr>score := 18840\<rparr>)) = rnd 25.9"
  "difficultyLevel (updateDifficulty
     ((updateDifficulty ((initialGameState 0)\<lparr>score := 18840\<rparr>))\<lparr>score := 19220\<rparr>)) = 20"
  "gameSpeed (updateDifficulty
     ((updateDifficulty ((initialGameState 0)\<lparr>score := 18840\<rparr>))\<lparr>score := 19220\<rparr>)) = 26"
proof -
  let ?S = "(initialGameState 0)\<lparr>score := 18840\<rparr>"
  let ?A = "updateDifficulty ?S"
  have i: "score ?S = 18840" "difficultyLevel ?S = 1" "gameSpeed ?S = 2"
    by (simp_all add: initialGameState_def)
  have x: "199199 / 10000 \<le> rnd 19.92" "rnd 19.92 \<le> 199201 / 10000"
    by (rule rnd_lower, simp, simp) (rule rnd_upper, simp, simp)
  have y: "2010 / 100 \<le> rnd 20.11" "rnd 20.11 \<le> 2012 / 100"
    by (rule rnd_lower, simp, simp) (rule rnd_upper, simp, simp)
  have "1000001 / 10000000 \<le> \<bar>1 - rnd 19.92\<bar>"
    using x by argo
  from guard_applied [OF this]
  have n: "\<not> \<bar>dsub (difficultyLevel ?S) (roundedDifficulty (score ?S))\<bar> < rnd 0.1"
    unfolding i roundedDifficulty_18840 .
  have m: "min (rnd 19.92) 20 = rnd 19.92"
    using x(2) by (simp only: min_def) argo
  note f = updateDifficulty_fields [OF n, unfolded i roundedDifficulty_18840 m]
  show a: "difficultyLevel ?A = rnd 19.92"
    by (rule f)
  have l: "0 \<le> rnd 19.92" "rnd 19.92 \<le> 20"
    using x by argo+
  have "min (2 + 1.2 * rnd 19.92) 30 = 2 + 1.2 * rnd 19.92"
    using x by (simp only: min_def) argo
  with newGameSpeed_near [OF l]
  have g: "\<bar>newGameSpeed (rnd 19.92) - (2 + 1.2 * rnd 19.92)\<bar> \<le> 1 / 2 ^ 46"
    by (simp only:)
  have t: "(1::real) / 2 ^ 46 \<le> 1 / 10000" by simp
  have "\<bar>newGameSpeed (rnd 19.92) - 2590 / 100\<bar> \<le> 45 / 10000"
    using g t x by argo
  then have g1: "\<bar>newGameSpeed (rnd 19.92) - of_int 2590 / 100\<bar> \<le> 45 / 10000"
    by simp
  have g2: "\<bar>newGameSpeed (rnd 19.92)\<bar> \<le> 40"
    using l by (rule newGameSpeed_range)
  have g3: "1000001 / 10000000 \<le> \<bar>2 - newGameSpeed (rnd 19.92)\<bar>"
    using g t x by argo
  have v: "ddiv (jsRound (dmul (newGameSpeed (rnd 19.92)) 100)) 100 = rnd 25.9"
    using round2_value [OF g1 g2] by simp
  show b: "gameSpeed ?A = rnd 25.9"
    unfolding f(2) v using guard_exceeded [OF g3] by (simp only: if_True)
  have j: "score (?A\<lparr>score := 19220\<rparr>) = 19220" "difficultyLevel (?A\<lparr>score := 19220\<rparr>) = rnd 19.92"
    "gameSpeed (?A\<lparr>score := 19220\<rparr>) = rnd 25.9"
    by (simp_all add: a b)
  have "1000001 / 10000000 \<le> \<bar>rnd 19.92 - rnd 20.11\<bar>"
    using x y by argo
  from guard_applied [OF this]
  have n': "\<not> \<bar>dsub (difficultyLevel (?A\<lparr>score := 19220\<rparr>))
      (roundedDifficulty (score (?A\<lparr>score := 19220\<rparr>)))\<bar> < rnd 0.1"
    unfolding j roundedDifficulty_19220 .
  have m': "min (rnd 20.11) 20 = 20"
    using y(1) by (simp only: min_def) argo
  note f' = updateDifficulty_fields [OF n', unfolded j roundedDifficulty_19220 m' newGameSpeed_20]
  show "difficultyLevel (updateDifficulty (?A\<lparr>score := 19220\<rparr>)) = 20"
    by (rule f')
  have w: "ddiv (jsRound (dmul 26 100)) 100 = 26"
    by (simp add: ddiv_def dmul_def jsRound_def rnd_Ints)
  show "gameSpeed (updateDifficulty (?A\<lparr>score := 19220\<rparr>)) = 26"
    unfolding f'(2) w using dsub_259_26 by (simp only: if_True)
qed

subsection \<open>Craft movement\<close>

lemma timers_frame:
  "ship_x (updateShieldTimer dt s) = ship_x s" "ship_y (updateShieldTimer dt s) = ship_y s"
  "boost (updateShieldTimer dt s) = boost s" "velocity (updateShieldTimer dt s) = velocity s"
  "ship_x (updateInvisibilityTimer dt s) = ship_x s" "ship_y (updateInvisibilityTimer dt s) = ship_y s"
  "boost (updateInvisibilityTimer dt s) = boost s" "velocity (updateInvisibilityTimer dt s) = velocity s"
  "ship_x (updateMultishotTimer dt s) = ship_x s" "ship_y (updateMultishotTimer dt s) = ship_y s"
  "boost (updateMultishotTimer dt s) = boost s" "velocity (updateMultishotTimer dt s) = velocity s"
  "ship_x (updateMagnetTimer dt s) = ship_x s" "ship_y (updateMagnetTimer dt s) = ship_y s"
  "boost (updateMagnetTimer dt s) = boost s" "velocity (updateMagnetTimer dt s) = velocity s"
  "ship_x (updateTimeFreezeTimer dt s) = ship_x s" "ship_y (updateTimeFreezeTimer dt s) = ship_y s"
  "boost (updateTimeFreezeTimer dt s) = boost s" "velocity (updateTimeFreezeTimer dt s) = velocity s"
  by (simp_all add: updateShieldTimer_def updateInvisibilityTimer_def updateMultishotTimer_def
      updateMagnetTimer_def updateTimeFreezeTimer_def)

lemma shake_boost_frame:
  "ship_x (handleBoost dt keys s) = ship_x s" "ship_y (handleBoost dt keys s) = ship_y s"
  "ship_x (updateScreenShake rx ry s) = ship_x s" "ship_y (updateScreenShake rx ry s) = ship_y s"
  "boostTime (updateScreenShake rx ry s) = boostTime s"
  "boostTime (moveCraft keys gs s) = boostTime s"
  "boost (handleBoost dt keys s) \<longleftrightarrow> ''Space'' \<in> keys \<and> boostTime s > 0"
  "velocity (handleBoost dt keys s) = (if ''Space'' \<in> keys \<and> boostTime s > 0 then 16 else 8)"
  by (simp_all add: handleBoost_def updateScreenShake_def moveCraft_def Let_def)

lemma updateShip_position:
  "ship_x (updateShip dt rx ry keys gs s) = ship_x (moveCraft keys gs s)"
  "ship_y (updateShip dt rx ry keys gs s) = ship_y (moveCraft keys gs s)"
  "boost (updateShip dt rx ry keys gs s) \<longleftrightarrow> ''Space'' \<in> keys \<and> boostTime s > 0"
  "velocity (updateShip dt rx ry keys gs s) = (if ''Space'' \<in> keys \<and> boostTime s > 0 then 16 else 8)"
  by (simp_all add: updateShip_def timers_frame shake_boost_frame)

text \<open>
  C7. Directional input is to move the craft at a fixed per-axis speed that is doubled
  while boosting, with the position clamped to the playfield. The code clamps the
  position but does not double the displacement: it is \<open>moveSpeed = 8\<close> with or without
  boost, and boosting only sets the \<open>velocity\<close> field to 16 (\<open>Exactly 2x the base movement
  speed\<close>), which the position update does not read. With ArrowRight and Space held and
  5000 ms of boost, the craft moves from x = 400 to 408, as it does without boost.
\<close>

theorem boost_displacement_not_doubled:
  "boost (updateShip 16 0.5 0.5 {''ArrowRight'', ''Space''} (initialGameState 0)
      (initialShip\<lparr>boost := True, boostTime := 5000\<rparr>)) \<and>
   velocity (updateShip 16 0.5 0.5 {''ArrowRight'', ''Space''} (initialGameState 0)
      (initialShip\<lparr>boost := True, boostTime := 5000\<rparr>)) = 16 \<and>
   ship_x (updateShip 16 0.5 0.5 {''ArrowRight'', ''Space''} (initialGameState 0)
      (initialShip\<lparr>boost := True, boostTime := 5000\<rparr>)) = ship_x initialShip + 8 \<and>
   ship_x (updateShip 16 0.5 0.5 {''ArrowRight''} (initialGameState 0) initialShip) = ship_x initialShip + 8"
  unfolding updateShip_position
  by (simp add: moveCraft_def Let_def initialShip_def initialGameState_def)

subsection \<open>Obstacle motion\<close>

lemma avoidStep_place: "obstaclePlace (avoidStep k ob io) = obstaclePlace ob"
  by (cases io) (simp add: avoidStep_def obstaclePlace_def Let_def)

lemma foldl_avoid_place: "obstaclePlace (foldl (avoidStep k) ob xs) = obstaclePlace ob"
  by (induction xs arbitrary: ob) (simp_all add: avoidStep_place)

lemma avoid_place: "obstaclePlace (avoidOtherObstacles ob obs k) = obstaclePlace ob"
  by (simp add: avoidOtherObstacles_def foldl_avoid_place)

lemma move_place:
  "obstaclePlace (moveObstacle frozen ob) = advanced (if frozen then 0.3 else 0.7) ob"
  by (simp add: moveObstacle_def obstaclePlace_def advanced_def mult.commute)

lemma move_onScreen:
  "isOffScreen gs (ob_x (moveObstacle frozen ob)) (ob_y (moveObstacle frozen ob))
     \<longleftrightarrow> \<not> onScreen gs (advanced (if frozen then 0.3 else 0.7) ob)"
  by (simp add: moveObstacle_def onScreen_def advanced_def mult.commute)

lemma removeAt_update: "i < length xs \<Longrightarrow> removeAt i (xs[i := v]) = removeAt i xs"
  by (simp add: removeAt_def)

lemma take_removeAt: "i < length xs \<Longrightarrow> take i (removeAt i xs) = take i xs"
  by (simp add: removeAt_def)

lemma drop_removeAt: "i < length xs \<Longrightarrow> drop i (removeAt i xs) = drop (Suc i) xs"
  by (simp add: removeAt_def)

lemma obstacleLoop_places:
  "k \<le> length obs \<Longrightarrow>
   map obstaclePlace (obstacleLoop frozen gs k obs) =
     filter (onScreen gs) (map (advanced (if frozen then 0.3 else 0.7)) (take k obs))
       @ map obstaclePlace (drop k obs)"
proof (induction k arbitrary: obs)
  case 0
  show ?case by simp
next
  case (Suc i)
  then have i: "i < length obs" by simp
  let ?c = "if frozen then 0.3 else 0.7 :: real"
  let ?m = "moveObstacle frozen (obs ! i)"
  have tk: "take (Suc i) obs = take i obs @ [obs ! i]"
    using i by (rule take_Suc_conv_app_nth)
  show ?case
  proof (cases "isOffScreen gs (ob_x ?m) (ob_y ?m)")
    case True
    then have off: "\<not> onScreen gs (advanced ?c (obs ! i))"
      by (simp add: move_onScreen)
    have "map obstaclePlace (obstacleLoop frozen gs i (removeAt i obs)) =
        filter (onScreen gs) (map (advanced ?c) (take i (removeAt i obs)))
          @ map obstaclePlace (drop i (removeAt i obs))"
      using i by (intro Suc.IH) (simp add: removeAt_length)
    with True off i show ?thesis
      by (simp add: Let_def removeAt_update take_removeAt drop_removeAt tk)
  next
    case False
    then have on: "onScreen gs (advanced ?c (obs ! i))"
      by (simp add: move_onScreen)
    let ?obs = "obs[i := avoidOtherObstacles ?m (obs[i := ?m]) i]"
    have "map obstaclePlace (obstacleLoop frozen gs i ?obs) =
        filter (onScreen gs) (map (advanced ?c) (take i ?obs)) @ map obstaclePlace (drop i ?obs)"
      using i by (intro Suc.IH) simp
    moreover have "drop i ?obs = avoidOtherObstacles ?m (obs[i := ?m]) i # drop (Suc i) obs"
      using i by (simp add: drop_update_cancel Cons_nth_drop_Suc [symmetric] upd_conv_take_nth_drop)
    ultimately show ?thesis
      using False on i
      by (simp add: Let_def tk avoid_place move_place)
  qed
qed

text \<open>
  C6 (as amended). In every tick each obstacle advances by 70% of its stored velocity
  when time-freeze is not active, and by 30% of its stored velocity when it is; an
  obstacle that is then more than 100 beyond the playfield is removed, the others stay
  in order.
\<close>

theorem updateObstacles_advance:
  "map obstaclePlace (obstacles (updateObstacles st)) =
     filter (onScreen (gameState st))
       (map (advanced (if isTimeFrozen (ship st) then 0.3 else 0.7)) (obstacles st))"
  using obstacleLoop_places [of "length (obstacles st)" "obstacles st"]
  by (simp add: updateObstacles_def)

theorem updateObstacles_advance_witness:
  "map obstaclePlace (obstacles (updateObstacles
      ((initialSim 0)\<lparr>obstacles := [mkObstacle ''asteroid'' 400 300 (- 10) 0,
                                     mkObstacle ''debris'' (- 95) 300 (- 10) 0]\<rparr>)))
     = [(''obstacle'', 393, 300)]"
  unfolding updateObstacles_advance
  by (simp add: initialSim_def initialShip_def initialGameState_def mkObstacle_def advanced_def
      onScreen_def isOffScreen_def)

text \<open>
  Under time-freeze the factor is 0.3 of the stored velocity, not 0.3 of the damped
  rate: an obstacle at x = 400 with velocityX = -10 gets to 397, not to 397.9.
\<close>

theorem frozen_advance_counterexample:
  "map obstaclePlace (obstacles (updateObstacles
      ((initialSim 0)\<lparr>ship := initialShip\<lparr>isTimeFrozen := True, timeFreezeTime := 5000\<rparr>,
                       obstacles := [mkObstacle ''asteroid'' 400 300 (- 10) 0]\<rparr>)))
     = [(''obstacle'', 397, 300)] \<and>
   (397::real) \<noteq> 400 + 0.3 * 0.7 * (- 10)"
  using obstacleLoop_places [of 1 "[mkObstacle ''asteroid'' 400 300 (- 10) 0]" True "initialGameState 0"]
  by (simp add: updateObstacles_def initialSim_def mkObstacle_def advanced_def
      onScreen_def isOffScreen_def initialGameState_def)

subsection \<open>Injected actions\<close>

lemma orNum_zero: "orNum (Some 0) d = orNum None d" "orNum None d = d"
  by (simp_all add: orNum_def)

lemma orStr_empty: "orStr (Some []) d = orStr None d" "orStr None d = d"
  by (simp_all add: orStr_def)

lemma orBool_False: "orBool (Some False) d = orBool None d" "orBool None d = d"
  by (simp_all add: orBool_def)

lemma spawnPowerUp_falsy:
  "spawnPowerUp (data\<lparr>pd_x := Some 0\<rparr>) r i st = spawnPowerUp (data\<lparr>pd_x := None\<rparr>) r i st"
  "spawnPowerUp (data\<lparr>pd_y := Some 0\<rparr>) r i st = spawnPowerUp (data\<lparr>pd_y := None\<rparr>) r i st"
  "spawnPowerUp (data\<lparr>pd_points := Some 0\<rparr>) r i st = spawnPowerUp (data\<lparr>pd_points := None\<rparr>) r i st"
  "spawnPowerUp (data\<lparr>pd_duration := Some 0\<rparr>) r i st = spawnPowerUp (data\<lparr>pd_duration := None\<rparr>) r i st"
  "spawnPowerUp (data\<lparr>pd_effectStrength := Some 0\<rparr>) r i st
     = spawnPowerUp (data\<lparr>pd_effectStrength := None\<rparr>) r i st"
  "spawnPowerUp (data\<lparr>pd_type := Some []\<rparr>) r i st = spawnPowerUp (data\<lparr>pd_type := None\<rparr>) r i st"
  "spawnPowerUp (data\<lparr>pd_rarity := Some []\<rparr>) r i st = spawnPowerUp (data\<lparr>pd_rarity := None\<rparr>) r i st"
  by (simp_all add: spawnPowerUp_def orNum_zero orStr_empty Let_def)

lemma spawnPowerUp_defaults:
  "pu_x (last (powerUps (spawnPowerUp (data\<lparr>pd_x := None\<rparr>) r i st))) = gs_width (gameState st)"
  "pu_y (last (powerUps (spawnPowerUp (data\<lparr>pd_y := None\<rparr>) r i st))) = r * (gs_height (gameState st) - 30)"
  "points (last (powerUps (spawnPowerUp (data\<lparr>pd_points := None\<rparr>) r i st))) = 25"
  "duration (last (powerUps (spawnPowerUp (data\<lparr>pd_duration := None\<rparr>) r i st))) = 15000"
  by (simp_all add: spawnPowerUp_def orNum_zero Let_def)

lemma spawnPlace_falsy:
  "spawnPlace (odata\<lparr>od_x := Some 0\<rparr>) rolls gs side speed w h = spawnPlace (odata\<lparr>od_x := None\<rparr>) rolls gs side speed w h"
  "spawnPlace (odata\<lparr>od_y := Some 0\<rparr>) rolls gs side speed w h = spawnPlace (odata\<lparr>od_y := None\<rparr>) rolls gs side speed w h"
  "spawnPlace (odata\<lparr>od_speed := v\<rparr>) rolls gs side speed w h = spawnPlace odata rolls gs side speed w h"
  "spawnPlace (odata\<lparr>od_width := v\<rparr>) rolls gs side speed w h = spawnPlace odata rolls gs side speed w h"
  "spawnPlace (odata\<lparr>od_height := v\<rparr>) rolls gs side speed w h = spawnPlace odata rolls gs side speed w h"
  "spawnPlace (odata\<lparr>od_damage := v\<rparr>) rolls gs side speed w h = spawnPlace odata rolls gs side speed w h"
  "spawnPlace (odata\<lparr>od_health := v\<rparr>) rolls gs side speed w h = spawnPlace odata rolls gs side speed w h"
  by (simp_all add: spawnPlace_def orNum_zero)

lemma spawnObstacle_falsy:
  "spawnObstacle (odata\<lparr>od_x := Some 0\<rparr>) rolls i st = spawnObstacle (odata\<lparr>od_x := None\<rparr>) rolls i st"
  "spawnObstacle (odata\<lparr>od_y := Some 0\<rparr>) rolls i st = spawnObstacle (odata\<lparr>od_y := None\<rparr>) rolls i st"
  "spawnObstacle (odata\<lparr>od_speed := Some 0\<rparr>) rolls i st = spawnObstacle (odata\<lparr>od_speed := None\<rparr>) rolls i st"
  "spawnObstacle (odata\<lparr>od_width := Some 0\<rparr>) rolls i st = spawnObstacle (odata\<lparr>od_width := None\<rparr>) rolls i st"
  "spawnObstacle (odata\<lparr>od_height := Some 0\<rparr>) rolls i st = spawnObstacle (odata\<lparr>od_height := None\<rparr>) rolls i st"
  "spawnObstacle (odata\<lparr>od_damage := Some 0\<rparr>) rolls i st = spawnObstacle (odata\<lparr>od_damage := None\<rparr>) rolls i st"
  "spawnObstacle (odata\<lparr>od_health := Some 0\<rparr>) rolls i st = spawnObstacle (odata\<lparr>od_health := None\<rparr>) rolls i st"
  by (simp_all add: spawnObstacle_def spawnPlace_falsy orNum_zero Let_def)

lemma spawnObstacle_defaults:
  "ob_speed (last (obstacles (spawnObstacle (odata\<lparr>od_speed := None\<rparr>) rolls i st))) = 4"
  "damage (last (obstacles (spawnObstacle (odata\<lparr>od_damage := None\<rparr>) rolls i st))) = Some 1"
  "ob_health (last (obstacles (spawnObstacle (odata\<lparr>od_health := None\<rparr>) rolls i st))) = Some 1"
  by (simp_all add: spawnObstacle_def orNum_zero Let_def split: prod.split)

text \<open>
  C10. In spawnPowerUp and spawnObstacle a field supplied with a falsy value, a number 0
  or an empty string, is treated exactly like a missing one, because the default is taken
  with \<open>||\<close>: the result is the same as without the field. A power-up injected with
  x = 0 is placed at the playfield width, one with y = 0 at the random default height,
  and points 0 or duration 0 become 25 and 15000; an obstacle injected with speed 0,
  damage 0 or health 0 gets speed 4, damage 1 and health 1.
\<close>

theorem falsy_fields_defaulted:
  "spawnPowerUp (data\<lparr>pd_x := Some 0\<rparr>) r i st = spawnPowerUp (data\<lparr>pd_x := None\<rparr>) r i st \<and>
   spawnPowerUp (data\<lparr>pd_y := Some 0\<rparr>) r i st = spawnPowerUp (data\<lparr>pd_y := None\<rparr>) r i st \<and>
   spawnPowerUp (data\<lparr>pd_points := Some 0\<rparr>) r i st = spawnPowerUp (data\<lparr>pd_points := None\<rparr>) r i st \<and>
   spawnPowerUp (data\<lparr>pd_duration := Some 0\<rparr>) r i st = spawnPowerUp (data\<lparr>pd_duration := None\<rparr>) r i st \<and>
   spawnPowerUp (data\<lparr>pd_effectStrength := Some 0\<rparr>) r i st
     = spawnPowerUp (data\<lparr>pd_effectStrength := None\<rparr>) r i st \<and>
   spawnPowerUp (data\<lparr>pd_type := Some []\<rparr>) r i st = spawnPowerUp (data\<lparr>pd_type := None\<rparr>) r i st \<and>
   spawnPowerUp (data\<lparr>pd_rarity := Some []\<rparr>) r i st = spawnPowerUp (data\<lparr>pd_rarity := None\<rparr>) r i st \<and>
   pu_x (last (powerUps (spawnPowerUp (data\<lparr>pd_x := Some 0\<rparr>) r i st))) = gs_width (gameState st) \<and>
   pu_y (last (powerUps (spawnPowerUp (data\<lparr>pd_y := Some 0\<rparr>) r i st))) = r * (gs_height (gameState st) - 30) \<and>
   points (last (powerUps (spawnPowerUp (data\<lparr>pd_points := Some 0\<rparr>) r i st))) = 25 \<and>
   duration (last (powerUps (spawnPowerUp (data\<lparr>pd_duration := Some 0\<rparr>) r i st))) = 15000 \<and>
   spawnObstacle (odata\<lparr>od_x := Some 0\<rparr>) rolls i st = spawnObstacle (odata\<lparr>od_x := None\<rparr>) rolls i st \<and>
   spawnObstacle (odata\<lparr>od_y := Some 0\<rparr>) rolls i st = spawnObstacle (odata\<lparr>od_y := None\<rparr>) rolls i st \<and>
   spawnObstacle (odata\<lparr>od_speed := Some 0\<rparr>) rolls i st = spawnObstacle (odata\<lparr>od_speed := None\<rparr>) rolls i st \<and>
   spawnObstacle (odata\<lparr>od_width := Some 0\<rparr>) rolls i st = spawnObstacle (odata\<lparr>od_width := None\<rparr>) rolls i st \<and>
   spawnObstacle (odata\<lparr>od_height := Some 0\<rparr>) rolls i st = spawnObstacle (odata\<lparr>od_height := None\<rparr>) rolls i st \<and>
   spawnObstacle (odata\<lparr>od_damage := Some 0\<rparr>) rolls i st = spawnObstacle (odata\<lparr>od_damage := None\<rparr>) rolls i st \<and>
   spawnObstacle (odata\<lparr>od_health := Some 0\<rparr>) rolls i st = spawnObstacle (odata\<lparr>od_health := None\<rparr>) rolls i st \<and>
   ob_speed (last (obstacles (spawnObstacle (odata\<lparr>od_speed := Some 0\<rparr>) rolls i st))) = 4 \<and>
   damage (last (obstacles (spawnObstacle (odata\<lparr>od_damage := Some 0\<rparr>) rolls i st))) = Some 1 \<and>
   ob_health (last (obstacles (spawnObstacle (odata\<lparr>od_health := Some 0\<rparr>) rolls i st))) = Some 1"
  unfolding spawnPowerUp_falsy spawnObstacle_falsy
  by (simp only: spawnPowerUp_defaults spawnObstacle_defaults simp_thms)

end
